theory Spec2Isabelle
  imports Complex_Main
begin

section \<open>Overview\<close>

text \<open>
  The script \<^verbatim>\<open>create-structs.py\<close> reads the atoms of a surface from an XYZ file, moves
  the surface so that the mean of its z coordinates is the origin, and writes one XYZ
  file for each distance of a list, with one more atom at that distance above the
  surface.  The theory follows the script: the text functions of Python that it calls,
  the floats, the list of distances, the reading and the shifting of the surface, the
  files and the loop that writes them; then the properties, one section for each.
\<close>

section \<open>Errors\<close>

text \<open>
  The script catches one exception only (\<^verbatim>\<open>FileNotFoundError\<close> around \<^verbatim>\<open>os.rename\<close>);
  every other one ends the run.  \<open>NotModelled\<close> marks an input the model does not
  cover (a float that is not finite); it is not an exception of the program.
\<close>

datatype os_error = FileNotFoundError | PermissionError | IsADirectoryError | OtherOSError

datatype error = IndexError | ValueError | ZeroDivisionError | OSError os_error | NotModelled

section \<open>Text\<close>

text \<open>
  Python strings are sequences of code points; the model keeps the code points below 256,
  one \<^typ>\<open>char\<close> each.  \<open>isspace\<close> is \<^verbatim>\<open>str.isspace\<close> on that range: the characters
  9 to 13, 28 to 32, 133 and 160.
\<close>

definition isspace :: "char \<Rightarrow> bool" where
  "isspace c = (let n = (of_char c :: nat) in
     (9 \<le> n \<and> n \<le> 13) \<or> (28 \<le> n \<and> n \<le> 32) \<or> n = 133 \<or> n = 160)"

text \<open>\<^verbatim>\<open>s.strip()\<close>: whitespace removed at both ends.\<close>

definition strip :: "string \<Rightarrow> string" where
  "strip s = rev (dropWhile isspace (rev (dropWhile isspace s)))"


text \<open>
  \<^verbatim>\<open>s.split()\<close>: the maximal runs of characters that are not whitespace.  \<open>cur\<close> is the
  run being read.
\<close>

fun split_acc :: "string \<Rightarrow> string \<Rightarrow> string list" where
  "split_acc cur [] = (if cur = [] then [] else [cur])"
| "split_acc cur (c # cs) =
     (if isspace c then (if cur = [] then split_acc [] cs else cur # split_acc [] cs)
      else split_acc (cur @ [c]) cs)"

definition split_ws :: "string \<Rightarrow> string list" where
  "split_ws s = split_acc [] s"

text \<open>\<^verbatim>\<open>s.split('#')[0]\<close>: what comes before the first hash sign.\<close>

definition before_hash :: "string \<Rightarrow> string" where
  "before_hash s = takeWhile (\<lambda>c. c \<noteq> CHR ''#'') s"

text \<open>
  A file opened in text mode: \<^verbatim>\<open>\r\n\<close> and \<^verbatim>\<open>\r\<close> are read as \<^verbatim>\<open>\n\<close>, and
  \<^verbatim>\<open>readlines\<close> cuts after each \<^verbatim>\<open>\n\<close>, which stays at the end of its line.
\<close>

definition LF :: char where "LF = CHR 0x0A"

definition CR :: char where "CR = CHR 0x0D"

fun universal_newlines :: "string \<Rightarrow> string" where
  "universal_newlines [] = []"
| "universal_newlines [c] = (if c = CR then [LF] else [c])"
| "universal_newlines (c # d # cs) =
     (if c = CR then (if d = LF then LF # universal_newlines cs
                      else LF # universal_newlines (d # cs))
      else c # universal_newlines (d # cs))"

fun lines_acc :: "string \<Rightarrow> string \<Rightarrow> string list" where
  "lines_acc cur [] = (if cur = [] then [] else [cur])"
| "lines_acc cur (c # cs) =
     (if c = LF then (cur @ [c]) # lines_acc [] cs else lines_acc (cur @ [c]) cs)"

definition readlines :: "string \<Rightarrow> string list" where
  "readlines content = lines_acc [] (universal_newlines content)"

section \<open>Numbers\<close>

text \<open>
  A Python float is a binary64 number.  The model takes the finite ones as the reals they
  denote, and every arithmetic operation of the program as the exact operation followed by
  a rounding function \<open>rnd\<close>, which is a parameter of the model:
  \<^item> \<open>rnd = id\<close> is exact arithmetic;
  \<^item> \<open>rnd = round_f64\<close> is rounding to the nearest number with a significand of 53 bits,
    ties to the even significand, as IEEE 754 prescribes for \<open>+\<close>, \<open>-\<close>, \<open>*\<close>, \<open>/\<close>
    and for reading a decimal literal.
  Infinities, NaN, signed zeros and the limits of the exponent (overflow, subnormal
  numbers) are not modelled.
\<close>

definition round_half_even :: "real \<Rightarrow> int" where
  "round_half_even y = (let f = \<lfloor>y\<rfloor>; d = y - of_int f in
     if d < 1/2 then f else if 1/2 < d then f + 1 else if even f then f else f + 1)"

text \<open>\<open>bit_length n\<close> is the number of binary digits of \<open>n\<close>.\<close>

fun bit_length :: "nat \<Rightarrow> nat" where
  "bit_length n = (if n = 0 then 0 else Suc (bit_length (n div 2)))"

declare bit_length.simps [simp del]

text \<open>\<open>exponent2 x\<close> is the integer \<open>e\<close> with \<open>2 ^ e \<le> \<bar>x\<bar> < 2 ^ (e + 1)\<close>, for \<open>x \<noteq> 0\<close>.\<close>

definition exponent2 :: "real \<Rightarrow> int" where
  "exponent2 x = (let a = \<bar>x\<bar> in
     if 1 \<le> a then int (bit_length (nat \<lfloor>a\<rfloor>)) - 1
     else - int (bit_length (nat (\<lceil>1 / a\<rceil> - 1))))"

definition round_f64 :: "real \<Rightarrow> real" where
  "round_f64 x = (if x = 0 then 0 else
     let u = 2 powi (exponent2 x - 52) in of_int (round_half_even (x / u)) * u)"

section \<open>Numbers as text\<close>

subsection \<open>Reading numbers\<close>

definition digit_val :: "char \<Rightarrow> nat option" where
  "digit_val c = (let n = (of_char c :: nat) in if 48 \<le> n \<and> n \<le> 57 then Some (n - 48) else None)"

text \<open>
  A \<^emph>\<open>digitpart\<close> of Python's grammar: digits, with single underscores allowed between
  two digits.  \<open>digitpart s\<close> is the longest one at the start of \<open>s\<close>, as the list of its
  digits, with the rest of \<open>s\<close>.
\<close>

definition skip_underscore :: "string \<Rightarrow> string" where
  "skip_underscore cs =
     (case cs of u # d # r \<Rightarrow> (if u = CHR ''_'' \<and> digit_val d \<noteq> None then d # r else cs)
      | _ \<Rightarrow> cs)"

function digitpart :: "string \<Rightarrow> nat list \<times> string" where
  "digitpart [] = ([], [])"
| "digitpart (c # cs) =
     (case digit_val c of None \<Rightarrow> ([], c # cs)
      | Some d \<Rightarrow> (case digitpart (skip_underscore cs) of (ds, rest) \<Rightarrow> (d # ds, rest)))"
  by pat_completeness auto
termination
  by (relation "measure length") (auto simp: skip_underscore_def split: list.splits)

definition of_digits :: "nat list \<Rightarrow> nat" where
  "of_digits ds = foldl (\<lambda>a d. 10 * a + d) 0 ds"

definition sign_prefix :: "string \<Rightarrow> bool \<times> string" where
  "sign_prefix s = (case s of [] \<Rightarrow> (False, [])
     | c # cs \<Rightarrow> if c = CHR ''-'' then (True, cs) else if c = CHR ''+'' then (False, cs)
                else (False, s))"

text \<open>\<^verbatim>\<open>int(s)\<close> in base 10.\<close>

definition int_of_string :: "string \<Rightarrow> error + int" where
  "int_of_string s =
     (case sign_prefix (strip s) of (neg, t) \<Rightarrow>
        (case digitpart t of (ds, rest) \<Rightarrow>
           if ds = [] \<or> rest \<noteq> [] then Inl ValueError
           else Inr (if neg then - int (of_digits ds) else int (of_digits ds))))"

text \<open>
  \<^verbatim>\<open>float(s)\<close>: a sign, digits, a point, digits, an exponent; one of the two groups of
  digits may be missing.  The value is the decimal number read, rounded.  The words
  \<^verbatim>\<open>inf\<close>, \<^verbatim>\<open>infinity\<close> and \<^verbatim>\<open>nan\<close> (in any case) denote floats that are not
  modelled.
\<close>

definition lower :: "string \<Rightarrow> string" where
  "lower s = map (\<lambda>c. let n = (of_char c :: nat) in
                        if 65 \<le> n \<and> n \<le> 90 then char_of (n + 32) else c) s"

definition exponent_part :: "string \<Rightarrow> int option" where
  "exponent_part s = (case s of [] \<Rightarrow> Some 0
     | e # r \<Rightarrow> if e = CHR ''e'' \<or> e = CHR ''E'' then
                  (case sign_prefix r of (neg, r1) \<Rightarrow>
                     (case digitpart r1 of (ds, r2) \<Rightarrow>
                        if ds = [] \<or> r2 \<noteq> [] then None
                        else Some (if neg then - int (of_digits ds) else int (of_digits ds))))
                else None)"

definition float_of_string :: "(real \<Rightarrow> real) \<Rightarrow> string \<Rightarrow> error + real" where
  "float_of_string rnd s =
     (case sign_prefix (strip s) of (neg, t1) \<Rightarrow>
        (case digitpart t1 of (ip, t2) \<Rightarrow>
           (case (case t2 of [] \<Rightarrow> ([], t2)
                  | p # r \<Rightarrow> if p = CHR ''.'' then digitpart r else ([], t2)) of (fp, t3) \<Rightarrow>
              if ip = [] \<and> fp = [] then
                (if lower t1 \<in> {''inf'', ''infinity'', ''nan''} then Inl NotModelled
                 else Inl ValueError)
              else (case exponent_part t3 of None \<Rightarrow> Inl ValueError
                    | Some ex \<Rightarrow>
                        Inr (rnd ((if neg then - 1 else 1)
                                  * (real (of_digits ip) + real (of_digits fp) / 10 ^ length fp)
                                  * 10 powi ex))))))"

subsection \<open>Writing numbers and text\<close>

definition digit_char :: "nat \<Rightarrow> char" where
  "digit_char d = ''0123456789'' ! d"

fun dec_nat :: "nat \<Rightarrow> string" where
  "dec_nat n = (if n < 10 then [digit_char n] else dec_nat (n div 10) @ [digit_char (n mod 10)])"

declare dec_nat.simps [simp del]

text \<open>The number that a string of decimal digits denotes.\<close>

definition digits_value :: "string \<Rightarrow> nat" where
  "digits_value s = foldl (\<lambda>a c. 10 * a + (of_char c - 48)) 0 s"

definition str_int :: "int \<Rightarrow> string" where
  "str_int i = (if i < 0 then CHR ''-'' # dec_nat (nat (- i)) else dec_nat (nat i))"

definition rjust :: "nat \<Rightarrow> char \<Rightarrow> string \<Rightarrow> string" where
  "rjust n c s = replicate (n - length s) c @ s"

definition ljust :: "nat \<Rightarrow> char \<Rightarrow> string \<Rightarrow> string" where
  "ljust n c s = s @ replicate (n - length s) c"

text \<open>\<^verbatim>\<open>'{:>4d}'\<close>, and \<^verbatim>\<open>'{:04d}'\<close> for a number that is not negative.\<close>

definition fmt_4d :: "int \<Rightarrow> string" where
  "fmt_4d i = rjust 4 CHR '' '' (str_int i)"

definition fmt_04d :: "nat \<Rightarrow> string" where
  "fmt_04d i = rjust 4 CHR ''0'' (dec_nat i)"

text \<open>\<^verbatim>\<open>'{:3s}'\<close>\<close>

definition fmt_3s :: "string \<Rightarrow> string" where
  "fmt_3s s = ljust 3 CHR '' '' s"

text \<open>
  \<^verbatim>\<open>'{:.8f}'\<close> and \<^verbatim>\<open>'{:13.8f}'\<close>: the value rounded to 8 decimals, ties to even (the
  conversion is exact in Python).
\<close>

definition fmt_8f :: "real \<Rightarrow> string" where
  "fmt_8f x = (let n = nat (round_half_even (\<bar>x\<bar> * 10 ^ 8)) in
     (if x < 0 then ''-'' else [])
     @ dec_nat (n div 10 ^ 8) @ ''.'' @ rjust 8 CHR ''0'' (dec_nat (n mod 10 ^ 8)))"

definition fmt_13_8f :: "real \<Rightarrow> string" where
  "fmt_13_8f x = rjust 13 CHR '' '' (fmt_8f x)"

section \<open>The list of distances\<close>

text \<open>
  \<^verbatim>\<open>numpy.arange(start, stop, step)\<close> on floats: the length is the ceiling of
  \<^verbatim>\<open>(stop - start) / step\<close>, computed in floats (no element when that is not
  positive); the first two elements are \<^verbatim>\<open>start\<close> and \<^verbatim>\<open>start + step\<close>, and element
  \<open>i\<close> is \<^verbatim>\<open>start + i * delta\<close> with \<^verbatim>\<open>delta = (start + step) - start\<close>.  The division
  by a zero step raises \<^verbatim>\<open>ZeroDivisionError\<close>.
\<close>

definition arange :: "(real \<Rightarrow> real) \<Rightarrow> real \<Rightarrow> real \<Rightarrow> real \<Rightarrow> error + real list" where
  "arange rnd start stop step =
     (if step = 0 then Inl ZeroDivisionError
      else let len = nat \<lceil>rnd (rnd (stop - start) / step)\<rceil>;
               next = rnd (start + step);
               delta = rnd (next - start)
           in Inr (map (\<lambda>i. if i = 0 then start else if i = 1 then next
                               else rnd (start + rnd (real i * delta))) [0..<len]))"

text \<open>
  \<^verbatim>\<open>zvalues = np.arange(d_min, d_max + d_step, d_step)\<close>
\<close>

definition zvalues :: "(real \<Rightarrow> real) \<Rightarrow> real \<Rightarrow> real \<Rightarrow> real \<Rightarrow> error + real list" where
  "zvalues rnd d_min d_max d_step = arange rnd d_min (rnd (d_max + d_step)) d_step"

section \<open>Reading the surface\<close>

text \<open>
  Lines 113 and 114 of the script: the first line gives the number of atoms, before an
  optional comment; the second line is dropped.  \<^verbatim>\<open>pop(0)\<close> on an empty list raises
  \<^verbatim>\<open>IndexError\<close>.
\<close>

definition read_header :: "string list \<Rightarrow> error + (int \<times> string list)" where
  "read_header inpxyz_lines =
     (case inpxyz_lines of [] \<Rightarrow> Inl IndexError
      | first # rest \<Rightarrow>
          (case int_of_string (strip (before_hash first)) of Inl e \<Rightarrow> Inl e
           | Inr natoms \<Rightarrow>
               (case rest of [] \<Rightarrow> Inl IndexError
                | comment # rest' \<Rightarrow> Inr (natoms, rest'))))"

text \<open>\<^verbatim>\<open>[float(s) for s in tokens[:3]]\<close>\<close>

fun floats :: "(real \<Rightarrow> real) \<Rightarrow> string list \<Rightarrow> error + real list" where
  "floats rnd [] = Inr []"
| "floats rnd (s # ss) =
     (case float_of_string rnd s of Inl e \<Rightarrow> Inl e
      | Inr x \<Rightarrow> (case floats rnd ss of Inl e \<Rightarrow> Inl e | Inr xs \<Rightarrow> Inr (x # xs)))"

text \<open>
  The loop of lines 117 to 122, at index \<open>i\<close>: it stops at the end of the lines, or
  at the first index with \<open>i + 1 > natoms\<close>.  A line without a token raises
  \<^verbatim>\<open>IndexError\<close> (\<^verbatim>\<open>tokens.pop(0)\<close>).  The result is \<^verbatim>\<open>atoms\<close> and \<^verbatim>\<open>atomcoords\<close>.
\<close>

fun read_atoms ::
  "(real \<Rightarrow> real) \<Rightarrow> int \<Rightarrow> nat \<Rightarrow> string list \<Rightarrow> error + (string list \<times> real list list)" where
  "read_atoms rnd natoms i [] = Inr ([], [])"
| "read_atoms rnd natoms i (line # rest) =
     (if int i + 1 > natoms then Inr ([], [])
      else (case split_ws line of [] \<Rightarrow> Inl IndexError
            | symbol # tokens \<Rightarrow>
                (case floats rnd (take 3 tokens) of Inl e \<Rightarrow> Inl e
                 | Inr row \<Rightarrow>
                     (case read_atoms rnd natoms (Suc i) rest of Inl e \<Rightarrow> Inl e
                      | Inr (atoms, atomcoords) \<Rightarrow> Inr (symbol # atoms, row # atomcoords)))))"

definition read_structure ::
  "(real \<Rightarrow> real) \<Rightarrow> string list \<Rightarrow> error + (int \<times> string list \<times> real list list)" where
  "read_structure rnd inpxyz_lines =
     (case read_header inpxyz_lines of Inl e \<Rightarrow> Inl e
      | Inr (natoms, rest) \<Rightarrow>
          (case read_atoms rnd natoms 0 rest of Inl e \<Rightarrow> Inl e
           | Inr (atoms, atomcoords) \<Rightarrow> Inr (natoms, atoms, atomcoords)))"

section \<open>Shifting the surface\<close>

text \<open>
  The sum of numpy (\<^verbatim>\<open>pairwise_sum\<close> of its inner loop for \<^verbatim>\<open>add\<close>), on \<open>n\<close> numbers:
  \<^item> for \<open>n < 8\<close>, from 0 and from left to right (\<open>seq_sum\<close>);
  \<^item> for \<open>8 \<le> n \<le> 128\<close> (\<open>block_sum\<close>), eight accumulators \<open>r\<close> start as the first eight
    numbers and take the next numbers eight at a time; they are added as
    \<open>((r0 + r1) + (r2 + r3)) + ((r4 + r5) + (r6 + r7))\<close>, and the numbers left, fewer than
    eight, are added to that from left to right;
  \<^item> for \<open>n > 128\<close>, the sum of the first \<open>n2\<close> numbers and the sum of the others are
    added, where \<open>n2\<close> is \<open>n div 2\<close> lowered to a multiple of 8.
  The reduction adds this sum to its initial value 0.
\<close>

definition seq_sum :: "(real \<Rightarrow> real) \<Rightarrow> real \<Rightarrow> real list \<Rightarrow> real" where
  "seq_sum rnd res xs = foldl (\<lambda>a x. rnd (a + x)) res xs"

fun add_chunks :: "(real \<Rightarrow> real) \<Rightarrow> real list \<Rightarrow> real list \<Rightarrow> real list" where
  "add_chunks rnd r xs =
     (if length xs < 8 then r
      else add_chunks rnd (map2 (\<lambda>a x. rnd (a + x)) r (take 8 xs)) (drop 8 xs))"

declare add_chunks.simps [simp del]

definition block_sum :: "(real \<Rightarrow> real) \<Rightarrow> real list \<Rightarrow> real" where
  "block_sum rnd xs =
     (let m = length xs - length xs mod 8;
          r = add_chunks rnd (take 8 xs) (drop 8 (take m xs));
          res = rnd (rnd (rnd (r ! 0 + r ! 1) + rnd (r ! 2 + r ! 3))
                     + rnd (rnd (r ! 4 + r ! 5) + rnd (r ! 6 + r ! 7)))
      in seq_sum rnd res (drop m xs))"

function pairwise_sum :: "(real \<Rightarrow> real) \<Rightarrow> real list \<Rightarrow> real" where
  "pairwise_sum rnd xs =
     (if length xs < 8 then seq_sum rnd 0 xs
      else if length xs \<le> 128 then block_sum rnd xs
      else rnd (pairwise_sum rnd (take (length xs div 2 - length xs div 2 mod 8) xs)
                + pairwise_sum rnd (drop (length xs div 2 - length xs div 2 mod 8) xs)))"
  by pat_completeness auto
termination
proof (relation "measure (\<lambda>(rnd, xs). length xs)")
  fix rnd :: "real \<Rightarrow> real" and xs :: "real list"
  assume "\<not> length xs \<le> 128"
  then have "64 \<le> length xs div 2" and "length xs div 2 < length xs"
    by simp_all
  moreover have "length xs div 2 mod 8 < 8"
    by simp
  ultimately have "0 < length xs div 2 - length xs div 2 mod 8"
    and "length xs div 2 - length xs div 2 mod 8 < length xs"
    by linarith+
  then have "length (take (length xs div 2 - length xs div 2 mod 8) xs) < length xs"
    and "length (drop (length xs div 2 - length xs div 2 mod 8) xs) < length xs"
    unfolding length_take length_drop by linarith+
  then show "((rnd, take (length xs div 2 - length xs div 2 mod 8) xs), rnd, xs)
        \<in> measure (\<lambda>(rnd, xs). length xs)"
    and "((rnd, drop (length xs div 2 - length xs div 2 mod 8) xs), rnd, xs)
        \<in> measure (\<lambda>(rnd, xs). length xs)"
    unfolding in_measure by (simp_all only: prod.case)
qed simp

declare pairwise_sum.simps [simp del]

definition np_sum :: "(real \<Rightarrow> real) \<Rightarrow> real list \<Rightarrow> real" where
  "np_sum rnd xs = rnd (0 + pairwise_sum rnd xs)"

text \<open>
  \<^verbatim>\<open>np.array(atomcoords)[:, -1].mean()\<close>: the array has two axes when the rows have one
  length (rows of different lengths raise \<^verbatim>\<open>ValueError\<close>, no row or empty rows raise
  \<^verbatim>\<open>IndexError\<close>); the mean is the sum of the last column divided by the number of rows.
\<close>

definition mean_last_column :: "(real \<Rightarrow> real) \<Rightarrow> real list list \<Rightarrow> error + real" where
  "mean_last_column rnd atomcoords =
     (case atomcoords of [] \<Rightarrow> Inl IndexError
      | row # rows \<Rightarrow>
          if \<not> list_all (\<lambda>r. length r = length row) rows then Inl ValueError
          else if row = [] then Inl IndexError
          else Inr (rnd (np_sum rnd (map last atomcoords) / real (length atomcoords))))"

text \<open>
  \<^verbatim>\<open>[(x, y, z-shift) for x, y, z in atomcoords]\<close>: a row that does not have three
  numbers raises \<^verbatim>\<open>ValueError\<close>.
\<close>

fun shift_rows :: "(real \<Rightarrow> real) \<Rightarrow> real \<Rightarrow> real list list \<Rightarrow> error + (real \<times> real \<times> real) list" where
  "shift_rows rnd shift [] = Inr []"
| "shift_rows rnd shift (row # rows) =
     (case row of [x, y, z] \<Rightarrow>
        (case shift_rows rnd shift rows of Inl e \<Rightarrow> Inl e
         | Inr shftcoords \<Rightarrow> Inr ((x, y, rnd (z - shift)) # shftcoords))
      | _ \<Rightarrow> Inl ValueError)"

definition shift_structure ::
  "(real \<Rightarrow> real) \<Rightarrow> real list list \<Rightarrow> error + (real \<times> (real \<times> real \<times> real) list)" where
  "shift_structure rnd atomcoords =
     (case mean_last_column rnd atomcoords of Inl e \<Rightarrow> Inl e
      | Inr shift \<Rightarrow>
          (case shift_rows rnd shift atomcoords of Inl e \<Rightarrow> Inl e
           | Inr shftcoords \<Rightarrow> Inr (shift, shftcoords)))"

text \<open>
  Rounding errors.  A rounding has the relative error \<open>eps\<close> when
  \<open>\<bar>rnd x - x\<bar> \<le> eps * \<bar>x\<bar>\<close> for every \<open>x\<close>.  \<open>approx eps k c s t\<close> says that the computed
  number \<open>c\<close> stands for the exact number \<open>s\<close>, which is a sum of numbers whose absolute
  values add up to \<open>t\<close>, after at most \<open>k\<close> roundings on the way.
\<close>

definition rel_error :: "(real \<Rightarrow> real) \<Rightarrow> real \<Rightarrow> bool" where
  "rel_error rnd eps = (\<forall>x. \<bar>rnd x - x\<bar> \<le> eps * \<bar>x\<bar>)"

definition approx :: "real \<Rightarrow> nat \<Rightarrow> real \<Rightarrow> real \<Rightarrow> real \<Rightarrow> bool" where
  "approx eps k c s t = (\<bar>s\<bar> \<le> t \<and> \<bar>c - s\<bar> \<le> ((1 + eps) ^ k - 1) * t)"

section \<open>Files and the terminal\<close>

text \<open>
  The world of a run: the regular files (path to text), what was printed, and \<open>fault\<close>,
  which stands for all the rest of the operating system (permissions, directories, a
  full disk): it tells which calls fail, and how.
\<close>

datatype os_call = Rename string string | OpenRead string | OpenWrite string

record world =
  files :: "string \<rightharpoonup> string"
  fault :: "os_call \<Rightarrow> os_error option"
  stdout :: string

text \<open>\<^verbatim>\<open>os.rename(src, dst)\<close>, which replaces a file at \<open>dst\<close> (POSIX).\<close>

definition os_rename :: "world \<Rightarrow> string \<Rightarrow> string \<Rightarrow> os_error + world" where
  "os_rename w src dst =
     (case fault w (Rename src dst) of Some e \<Rightarrow> Inl e
      | None \<Rightarrow>
          (case files w src of None \<Rightarrow> Inl FileNotFoundError
           | Some text \<Rightarrow> Inr (w\<lparr>files := (files w)(src := None, dst \<mapsto> text)\<rparr>)))"

text \<open>\<^verbatim>\<open>open(path, 'r')\<close> and reading the whole file.\<close>

definition open_read :: "world \<Rightarrow> string \<Rightarrow> os_error + string" where
  "open_read w path =
     (case fault w (OpenRead path) of Some e \<Rightarrow> Inl e
      | None \<Rightarrow> (case files w path of None \<Rightarrow> Inl FileNotFoundError | Some text \<Rightarrow> Inr text))"

text \<open>\<^verbatim>\<open>open(path, 'w')\<close>, the writes and the closing of the file.\<close>

definition open_write :: "world \<Rightarrow> string \<Rightarrow> string \<Rightarrow> os_error + world" where
  "open_write w path text =
     (case fault w (OpenWrite path) of Some e \<Rightarrow> Inl e
      | None \<Rightarrow> Inr (w\<lparr>files := (files w)(path \<mapsto> text)\<rparr>))"

definition print :: "string \<Rightarrow> world \<Rightarrow> world" where
  "print s w = w\<lparr>stdout := stdout w @ s\<rparr>"

section \<open>The program\<close>

text \<open>The command line, as \<^verbatim>\<open>parse_args\<close> returns it.\<close>

record args =
  inpxyz :: string
  outname :: string
  d_min :: real
  d_max :: real
  d_step :: real
  atom_symb :: string
  xcoord :: real
  ycoord :: real

text \<open>\<^verbatim>\<open>'{:}_{:04d}.xyz'.format(outname, i)\<close>\<close>

definition newfile_name :: "string \<Rightarrow> nat \<Rightarrow> string" where
  "newfile_name out i = out @ ''_'' @ fmt_04d i @ ''.xyz''"

text \<open>\<^verbatim>\<open>'{:3s} {:13.8f} {:13.8f} {:13.8f}\n'\<close>\<close>

definition atom_line :: "string \<Rightarrow> real \<Rightarrow> real \<Rightarrow> real \<Rightarrow> string" where
  "atom_line atom x y z =
     fmt_3s atom @ '' '' @ fmt_13_8f x @ '' '' @ fmt_13_8f y @ '' '' @ fmt_13_8f z @ [LF]"

text \<open>The strings written into one file (lines 148 to 153), in order.\<close>

definition struct_lines ::
  "int \<Rightarrow> string \<Rightarrow> real \<Rightarrow> real \<Rightarrow> real \<Rightarrow> string list \<Rightarrow> (real \<times> real \<times> real) list \<Rightarrow> string list" where
  "struct_lines natoms newatom xnew ynew znew atoms shftcoords =
     [fmt_4d (natoms + 1) @ [LF],
      ''Atom-surface distance: '' @ fmt_8f znew @ [LF],
      atom_line newatom xnew ynew znew]
     @ map (\<lambda>(atom, (x, y, z)). atom_line atom x y z) (zip atoms shftcoords)"

definition struct_text ::
  "args \<Rightarrow> int \<Rightarrow> string list \<Rightarrow> (real \<times> real \<times> real) list \<Rightarrow> real \<Rightarrow> string" where
  "struct_text a natoms atoms shftcoords znew =
     concat (struct_lines natoms (atom_symb a) (xcoord a) (ycoord a) znew atoms shftcoords)"

text \<open>
  Lines 139 to 144: the file in the way is renamed; \<^verbatim>\<open>FileNotFoundError\<close> is passed
  over, and the warning is printed when the renaming took place.
\<close>

definition backup :: "string \<Rightarrow> world \<Rightarrow> error + world" where
  "backup newfile w =
     (case os_rename w newfile (newfile @ ''.BAK'') of
        Inl e \<Rightarrow> if e = FileNotFoundError then Inr w else Inl (OSError e)
      | Inr w' \<Rightarrow>
          Inr (print (''WARNING: File '' @ [CHR 0x22] @ newfile @ [CHR 0x22] @ '' moved to ''
                      @ [CHR 0x22] @ newfile @ ''.BAK'' @ [CHR 0x22] @ [LF]) w'))"

text \<open>One turn of the loop of line 136.  The result is the exception, if any, and the world.\<close>

definition write_struct ::
  "args \<Rightarrow> int \<Rightarrow> string list \<Rightarrow> (real \<times> real \<times> real) list \<Rightarrow> nat \<Rightarrow> real \<Rightarrow> world
     \<Rightarrow> error option \<times> world" where
  "write_struct a natoms atoms shftcoords i znew w =
     (let newfile = newfile_name (outname a) i in
      case backup newfile w of Inl e \<Rightarrow> (Some e, w)
      | Inr w1 \<Rightarrow>
          (let w2 = print (''Writing new file for d='' @ fmt_8f znew @ '' ... '') w1 in
           case open_write w2 newfile (struct_text a natoms atoms shftcoords znew) of
             Inl e \<Rightarrow> (Some (OSError e), w2)
           | Inr w3 \<Rightarrow> (None, print (''done! (New file: '' @ newfile @ '')'' @ [LF]) w3)))"

fun write_loop ::
  "args \<Rightarrow> int \<Rightarrow> string list \<Rightarrow> (real \<times> real \<times> real) list \<Rightarrow> (nat \<times> real) list \<Rightarrow> world
     \<Rightarrow> error option \<times> world" where
  "write_loop a natoms atoms shftcoords [] w = (None, w)"
| "write_loop a natoms atoms shftcoords ((i, znew) # rest) w =
     (case write_struct a natoms atoms shftcoords i znew w of
        (Some e, w') \<Rightarrow> (Some e, w')
      | (None, w') \<Rightarrow> write_loop a natoms atoms shftcoords rest w')"

definition enumerate :: "'a list \<Rightarrow> (nat \<times> 'a) list" where
  "enumerate xs = zip [0..<length xs] xs"

text \<open>
  \<^verbatim>\<open>main\<close>, from the parsed command line: the distances, the surface read from the input
  file, the shift, and one file for each distance.
\<close>

definition main :: "(real \<Rightarrow> real) \<Rightarrow> args \<Rightarrow> world \<Rightarrow> error option \<times> world" where
  "main rnd a w =
     (case zvalues rnd (d_min a) (d_max a) (d_step a) of Inl e \<Rightarrow> (Some e, w)
      | Inr zs \<Rightarrow>
          (case open_read w (inpxyz a) of Inl e \<Rightarrow> (Some (OSError e), w)
           | Inr content \<Rightarrow>
               (case read_structure rnd (map strip (readlines content)) of
                  Inl e \<Rightarrow> (Some e, w)
                | Inr (natoms, atoms, atomcoords) \<Rightarrow>
                    (case shift_structure rnd atomcoords of Inl e \<Rightarrow> (Some e, w)
                     | Inr (shift, shftcoords) \<Rightarrow>
                         write_loop a natoms atoms shftcoords (enumerate zs) w))))"

section \<open>Arguments read from a file\<close>

text \<open>
  \<^verbatim>\<open>ArgumentParser.convert_arg_line_to_args\<close> is a generator; the model returns the list
  of the values it yields.  Python's \<^verbatim>\<open>or\<close> evaluates \<^verbatim>\<open>line.strip()[0]\<close> only when
  the stripped line is not empty.
\<close>

definition convert_arg_line_to_args :: "string \<Rightarrow> string list" where
  "convert_arg_line_to_args line =
     (if length (strip line) = 0 \<or> strip line ! 0 = CHR ''#'' then [] else [line])"

text \<open>
  The two readings of "a comment line".  \<open>blank_or_hash\<close> is the literal one: the
  line is made of whitespace only, or its first character is the hash sign.
  \<open>comment_line\<close> looks at the first character that is not whitespace.
\<close>

definition blank_or_hash :: "string \<Rightarrow> bool" where
  "blank_or_hash line = (list_all isspace line \<or> take 1 line = ''#'')"

definition comment_line :: "string \<Rightarrow> bool" where
  "comment_line line =
     (case dropWhile isspace line of [] \<Rightarrow> True | c # _ \<Rightarrow> c = CHR ''#'')"

section \<open>Example runs\<close>

text \<open>
  Three atoms at the heights 1, 2 and 3, and the command line
  \<^verbatim>\<open>-i surf.xyz -o out -dmin 2 -dmax 4 -dstep 1 -atom H -x 0 -y 0\<close>, in a directory that
  holds the input file only.
\<close>

definition scenario_xyz :: string where
  "scenario_xyz = ''3'' @ [LF] @ ''a surface'' @ [LF] @ ''Cu 0.0 0.0 1.0'' @ [LF]
     @ ''Cu 1.5 0.0 2.0'' @ [LF] @ ''Cu 0.0 1.5 3.0'' @ [LF]"

definition scenario_world :: world where
  "scenario_world = \<lparr>files = [''surf.xyz'' \<mapsto> scenario_xyz], fault = (\<lambda>c. None), stdout = []\<rparr>"

definition scenario_args :: args where
  "scenario_args = \<lparr>inpxyz = ''surf.xyz'', outname = ''out'', d_min = 2, d_max = 4, d_step = 1,
     atom_symb = ''H'', xcoord = 0, ycoord = 0\<rparr>"

text \<open>An input file that declares three atoms and has one, with one distance.\<close>

definition short_xyz :: string where
  "short_xyz = ''3'' @ [LF] @ ''one atom only'' @ [LF] @ ''Cu 0.0 0.0 1.0'' @ [LF]"

definition short_world :: world where
  "short_world = \<lparr>files = [''surf.xyz'' \<mapsto> short_xyz], fault = (\<lambda>c. None), stdout = []\<rparr>"

definition short_args :: args where
  "short_args = \<lparr>inpxyz = ''surf.xyz'', outname = ''out'', d_min = 2, d_max = 2, d_step = 1,
     atom_symb = ''H'', xcoord = 0, ycoord = 0\<rparr>"


text \<open>
  The directory of a second run: \<^verbatim>\<open>out_0000.xyz\<close> and a backup of it are there
  already.  In \<open>denied_world\<close> no file may be renamed; in \<open>full_world\<close> no file can be
  written.
\<close>

definition second_world :: world where
  "second_world = \<lparr>files = [''surf.xyz'' \<mapsto> scenario_xyz, ''out_0000.xyz'' \<mapsto> ''old run'',
       ''out_0000.xyz.BAK'' \<mapsto> ''older run''],
     fault = (\<lambda>c. None), stdout = []\<rparr>"

definition denied_world :: world where
  "denied_world = second_world
     \<lparr>fault := (\<lambda>c. case c of Rename src dst \<Rightarrow> Some PermissionError | _ \<Rightarrow> None)\<rparr>"

definition full_world :: world where
  "full_world = second_world
     \<lparr>fault := (\<lambda>c. case c of OpenWrite path \<Rightarrow> Some OtherOSError | _ \<Rightarrow> None)\<rparr>"

text \<open>
  A surface of three different atoms, with the command line of the first example; and
  the directory of the first example where \<^verbatim>\<open>out_0001.xyz\<close> cannot be opened for writing.
\<close>

definition alloy_xyz :: string where
  "alloy_xyz = ''3'' @ [LF] @ ''an alloy'' @ [LF] @ ''Cu 0.0 0.0 1.0'' @ [LF]
     @ ''Ag 1.5 0.0 2.0'' @ [LF] @ ''Au 0.0 1.5 3.0'' @ [LF]"

definition alloy_world :: world where
  "alloy_world = \<lparr>files = [''surf.xyz'' \<mapsto> alloy_xyz], fault = (\<lambda>c. None), stdout = []\<rparr>"



section \<open>Properties of the text functions\<close>

lemma dropWhile_isspace_all:
  "(\<forall>x\<in>set (dropWhile isspace s). isspace x) \<longleftrightarrow> dropWhile isspace s = []"
proof (cases "dropWhile isspace s")
  case Nil
  then show ?thesis by (simp del: dropWhile_eq_Nil_conv)
next
  case (Cons c cs)
  then have "\<not> isspace c" by (metis hd_dropWhile list.sel(1) list.distinct(1))
  then show ?thesis using Cons by (auto simp del: dropWhile_eq_Nil_conv)
qed

lemma strip_Nil_iff: "strip s = [] \<longleftrightarrow> dropWhile isspace s = []"
  by (simp add: strip_def dropWhile_isspace_all)

lemma hd_strip: "dropWhile isspace s = c # cs \<Longrightarrow> hd (strip s) = c"
proof -
  assume h: "dropWhile isspace s = c # cs"
  then have c: "\<not> isspace c" by (metis hd_dropWhile list.sel(1) list.distinct(1))
  have "strip s = rev (dropWhile isspace (rev cs @ [c]))"
    by (simp add: strip_def h)
  also have "\<dots> = c # rev (dropWhile isspace (rev cs))"
    using c by (simp add: dropWhile_append3)
  finally show ?thesis by simp
qed

section \<open>Evaluating the text functions\<close>

lemma replicate_eval:
  "replicate (numeral n) c = c # replicate (pred_numeral n) c"
  by (simp add: numeral_eq_Suc)

lemma dec_nat_eval:
  "dec_nat 0 = ''0''" "dec_nat (Suc 0) = ''1''" "dec_nat 1 = ''1''"
  "dec_nat (numeral n) = (if numeral n < (10::nat) then [digit_char (numeral n)]
     else dec_nat (numeral n div 10) @ [digit_char (numeral n mod 10)])"
  by (simp_all add: dec_nat.simps [of "numeral n"] dec_nat.simps [of 1]
      dec_nat.simps [of "Suc 0"] dec_nat.simps [of 0] digit_char_def)

lemmas text_eval = replicate_eval dec_nat_eval digit_char_def str_int_def rjust_def ljust_def
  fmt_4d_def fmt_04d_def fmt_3s_def fmt_8f_def fmt_13_8f_def round_half_even_def Let_def

lemmas parse_eval = isspace_def strip_def split_ws_def before_hash_def LF_def CR_def readlines_def
  digit_val_def skip_underscore_def of_digits_def sign_prefix_def int_of_string_def lower_def
  exponent_part_def float_of_string_def Let_def

section \<open>Evaluating the rounding\<close>

lemma bit_length_eval:
  "bit_length 0 = 0" "bit_length (Suc 0) = Suc 0" "bit_length 1 = 1"
  "bit_length (numeral n) = Suc (bit_length (numeral n div 2))"
  by (simp_all add: bit_length.simps [of "numeral n"] bit_length.simps [of 1]
      bit_length.simps [of "Suc 0"] bit_length.simps [of 0])

lemmas f64_eval =
  round_f64_def exponent2_def bit_length_eval round_half_even_def power_int_minus Let_def

text \<open>
  The rounding is what its name says: \<open>exponent2\<close> is the binary exponent, and the
  rounded number is within half a unit of the last of the 53 bits.
\<close>

lemma bit_length_bounds:
  "0 < n \<Longrightarrow> 2 ^ (bit_length n - 1) \<le> n \<and> n < 2 ^ bit_length n"
proof (induction n rule: bit_length.induct)
  case (1 n)
  show ?case
  proof (cases "n div 2 = 0")
    case True
    with "1.prems" have "n = 1" by presburger
    then show ?thesis by (simp add: bit_length_eval)
  next
    case False
    then have pos: "0 < n div 2" by simp
    from "1.prems" have n: "n \<noteq> 0" by simp
    from "1.IH" [OF n pos] have lo: "2 ^ (bit_length (n div 2) - 1) \<le> n div 2"
      and hi: "n div 2 < 2 ^ bit_length (n div 2)"
      by simp_all
    have b: "bit_length n = Suc (bit_length (n div 2))"
      using n by (subst bit_length.simps) simp
    have k: "0 < bit_length (n div 2)"
      using pos by (subst bit_length.simps) simp
    then have "(2::nat) ^ bit_length (n div 2) = 2 * 2 ^ (bit_length (n div 2) - 1)"
      by (cases "bit_length (n div 2)") simp_all
    with lo have "2 ^ bit_length (n div 2) \<le> 2 * (n div 2)" by simp
    also have "\<dots> \<le> n" by simp
    finally have 1: "2 ^ (bit_length n - 1) \<le> n" by (simp add: b)
    from hi have "n div 2 + 1 \<le> 2 ^ bit_length (n div 2)" by simp
    then have "2 * (n div 2) + 2 \<le> 2 * 2 ^ bit_length (n div 2)" by simp
    moreover have "n < 2 * (n div 2) + 2" by presburger
    ultimately have 2: "n < 2 ^ bit_length n" by (simp add: b)
    from 1 2 show ?thesis by simp
  qed
qed

lemma round_half_even_near: "\<bar>real_of_int (round_half_even y) - y\<bar> \<le> 1 / 2"
  unfolding round_half_even_def Let_def by (auto; linarith)

lemma exponent2_bounds:
  assumes "x \<noteq> 0"
  shows "2 powi (exponent2 x) \<le> \<bar>x\<bar> \<and> \<bar>x\<bar> < 2 powi (exponent2 x + 1)"
proof (cases "1 \<le> \<bar>x\<bar>")
  case True
  define n where "n = nat \<lfloor>\<bar>x\<bar>\<rfloor>"
  from True have n: "0 < n" by (simp add: n_def)
  from True have e: "exponent2 x = int (bit_length n) - 1"
    by (simp add: exponent2_def n_def)
  from True have nx: "real n \<le> \<bar>x\<bar>" "\<bar>x\<bar> < real (Suc n)"
    unfolding n_def by (simp, simp, linarith)
  from bit_length_bounds [OF n] have lo: "2 ^ (bit_length n - 1) \<le> n"
    and hi: "n < 2 ^ bit_length n" by simp_all
  have k: "0 < bit_length n"
    using n by (subst bit_length.simps) simp
  have "real (2 ^ (bit_length n - 1)) \<le> real n" using lo by (rule of_nat_mono)
  also note nx(1)
  finally have 1: "2 ^ (bit_length n - 1) \<le> \<bar>x\<bar>" by simp
  from hi have "Suc n \<le> 2 ^ bit_length n" by (rule Suc_leI)
  then have "real (Suc n) \<le> real (2 ^ bit_length n)" by (rule of_nat_mono)
  with nx(2) have 2: "\<bar>x\<bar> < 2 ^ bit_length n" by simp
  have p1: "(2::real) powi (int (bit_length n) - 1) = 2 ^ (bit_length n - 1)"
    using k by (simp add: power_int_def nat_diff_distrib')
  have p2: "(2::real) powi (int (bit_length n) - 1 + 1) = 2 ^ bit_length n"
    by simp
  from 1 2 show ?thesis unfolding e p1 p2 by simp
next
  case False
  with assms have a: "0 < \<bar>x\<bar>" "\<bar>x\<bar> < 1" by simp_all
  define c where "c = \<lceil>1 / \<bar>x\<bar>\<rceil>"
  define k where "k = nat (c - 1)"
  from a have "1 < 1 / \<bar>x\<bar>" by simp
  then have c2: "2 \<le> c" unfolding c_def by linarith
  then have k: "0 < k" and ck: "int k = c - 1" by (simp_all add: k_def)
  from False have e: "exponent2 x = - int (bit_length k)"
    by (simp add: exponent2_def k_def c_def)
  from bit_length_bounds [OF k] have lo: "2 ^ (bit_length k - 1) \<le> k"
    and hi: "k < 2 ^ bit_length k" by simp_all
  have j: "0 < bit_length k"
    using k by (subst bit_length.simps) simp
  from hi have "int k < int (2 ^ bit_length k)" by (rule of_nat_less_iff [THEN iffD2])
  with ck have "c \<le> 2 ^ bit_length k" by simp
  then have "1 / \<bar>x\<bar> \<le> real_of_int (2 ^ bit_length k)"
    unfolding c_def by (rule ceiling_le_iff [THEN iffD1])
  with a have 1: "1 / 2 ^ bit_length k \<le> \<bar>x\<bar>"
    by (simp add: field_simps)
  from lo have "int (2 ^ (bit_length k - 1)) \<le> int k" by (rule of_nat_mono)
  with ck have "2 ^ (bit_length k - 1) < c" by simp
  then have "real_of_int (2 ^ (bit_length k - 1)) < 1 / \<bar>x\<bar>"
    unfolding c_def by (rule less_ceiling_iff [THEN iffD1])
  with a have 2: "\<bar>x\<bar> < 1 / 2 ^ (bit_length k - 1)"
    by (simp add: field_simps)
  have p1: "(2::real) powi (- int (bit_length k)) = 1 / 2 ^ bit_length k"
    by (simp add: power_int_minus field_simps)
  have "- int (bit_length k) + 1 = - int (bit_length k - 1)"
    using j by simp
  then have "(2::real) powi (- int (bit_length k) + 1) = 2 powi (- int (bit_length k - 1))"
    by (rule arg_cong)
  also have "\<dots> = 1 / 2 ^ (bit_length k - 1)"
    by (simp add: power_int_minus field_simps del: of_nat_diff)
  finally have p2: "(2::real) powi (- int (bit_length k) + 1) = 1 / 2 ^ (bit_length k - 1)" .
  from 1 2 show ?thesis unfolding e p1 p2 by simp
qed

lemma round_f64_near:
  "\<bar>round_f64 x - x\<bar> \<le> 2 powi (exponent2 x - 53)"
proof (cases "x = 0")
  case True
  then show ?thesis by (simp add: round_f64_def)
next
  case False
  let ?u = "(2::real) powi (exponent2 x - 52)"
  have u: "0 < ?u" by simp
  have "round_f64 x - x = (real_of_int (round_half_even (x / ?u)) - x / ?u) * ?u"
    using False u by (simp add: round_f64_def Let_def field_simps)
  then have "\<bar>round_f64 x - x\<bar> = \<bar>real_of_int (round_half_even (x / ?u)) - x / ?u\<bar> * ?u"
    using u by (simp add: abs_mult)
  also have "\<dots> \<le> 1 / 2 * ?u"
    using round_half_even_near [of "x / ?u"] u by (intro mult_right_mono) simp_all
  also have "1 / 2 * ?u = 2 powi (exponent2 x - 53)"
    by (simp add: power_int_diff)
  finally show ?thesis .
qed

section \<open>The list of distances: properties\<close>

lemma arange_exact:
  assumes "step \<noteq> 0"
  shows "arange id start stop step =
     Inr (map (\<lambda>i. start + real i * step) [0..<nat \<lceil>(stop - start) / step\<rceil>])"
proof -
  have "(if i = 0 then start else if i = 1 then start + step
         else start + real i * (start + step - start)) = start + real i * step" for i :: nat
    by simp
  then show ?thesis
    using assms unfolding arange_def Let_def id_apply by simp
qed

lemma ceiling_steps:
  fixes q :: real
  shows "(real i < q + 1) = (i < nat (\<lceil>q\<rceil> + 1))"
proof -
  have "(real i < q + 1) = (int i < \<lceil>q + 1\<rceil>)"
    by (metis less_ceiling_iff of_int_of_nat_eq)
  also have "\<dots> = (i < nat (\<lceil>q\<rceil> + 1))"
    by (simp add: nat_less_iff zless_nat_eq_int_zless)
  finally show ?thesis .
qed

lemma zvalues_exact_eq:
  assumes "0 < dstep"
  shows "zvalues id dmin dmax dstep =
           Inr (map (\<lambda>i. dmin + real i * dstep)
                  [0..<nat (\<lceil>(dmax - dmin) / dstep\<rceil> + 1)])"
proof -
  have "(dmax + dstep - dmin) / dstep = (dmax - dmin) / dstep + 1"
    using assms by (simp add: field_simps)
  then show ?thesis
    using assms by (simp add: zvalues_def arange_exact)
qed

section \<open>Reading the surface: properties\<close>

lemma read_atoms_length:
  "read_atoms rnd natoms i ls = Inr (atoms, atomcoords) \<Longrightarrow>
     length atoms = min (nat (natoms - int i)) (length ls) \<and> length atomcoords = length atoms"
proof (induction ls arbitrary: i atoms atomcoords)
  case Nil
  then show ?case by simp
next
  case (Cons l ls)
  show ?case
  proof (cases "int i + 1 > natoms")
    case True
    with Cons.prems show ?thesis by simp
  next
    case False
    with Cons.prems obtain symbol tokens row atoms' coords' where
      r: "read_atoms rnd natoms (Suc i) ls = Inr (atoms', coords')"
      and a: "atoms = symbol # atoms'" "atomcoords = row # coords'"
      by (auto split: list.splits sum.splits)
    from Cons.IH [OF r] False a show ?thesis by auto
  qed
qed

lemma read_atoms_symbols:
  "read_atoms rnd natoms i ls = Inr (atoms, atomcoords) \<Longrightarrow>
     atoms = map (\<lambda>l. hd (split_ws l)) (take (nat (natoms - int i)) ls)"
proof (induction ls arbitrary: i atoms atomcoords)
  case Nil
  then show ?case by simp
next
  case (Cons l ls)
  show ?case
  proof (cases "int i + 1 > natoms")
    case True
    with Cons.prems show ?thesis by simp
  next
    case False
    with Cons.prems obtain symbol tokens row atoms' coords' where
      r: "read_atoms rnd natoms (Suc i) ls = Inr (atoms', coords')"
      and a: "atoms = symbol # atoms'" "split_ws l = symbol # tokens"
      by (auto split: list.splits sum.splits)
    from False have "nat (natoms - int i) = Suc (nat (natoms - int (Suc i)))"
      by simp
    with Cons.IH [OF r] a show ?thesis by simp
  qed
qed

lemma read_header_rest:
  "read_header ls = Inr (natoms, rest) \<Longrightarrow> rest = drop 2 ls"
  by (auto simp: read_header_def split: list.splits sum.splits)

lemma read_atoms_rows:
  "read_atoms rnd natoms i ls = Inr (atoms, atomcoords) \<Longrightarrow> j < length atoms \<Longrightarrow>
     \<exists>tokens. split_ws (ls ! j) = atoms ! j # tokens
       \<and> floats rnd (take 3 tokens) = Inr (atomcoords ! j)"
proof (induction ls arbitrary: i atoms atomcoords j)
  case Nil
  then show ?case by simp
next
  case (Cons l ls)
  show ?case
  proof (cases "int i + 1 > natoms")
    case True
    with Cons.prems show ?thesis by simp
  next
    case False
    with Cons.prems(1) obtain symbol tokens row atoms' coords' where
      r: "read_atoms rnd natoms (Suc i) ls = Inr (atoms', coords')"
      and a: "atoms = symbol # atoms'" "atomcoords = row # coords'"
        "split_ws l = symbol # tokens" "floats rnd (take 3 tokens) = Inr row"
      by (auto split: list.splits sum.splits)
    show ?thesis
    proof (cases j)
      case 0
      with a show ?thesis by simp
    next
      case (Suc k)
      with Cons.prems(2) a have "k < length atoms'" by simp
      from Cons.IH [OF r this] Suc a show ?thesis by simp
    qed
  qed
qed

lemma read_atoms_total:
  "\<forall>l \<in> set ls. \<exists>symbol tokens row. split_ws l = symbol # tokens
       \<and> floats rnd (take 3 tokens) = Inr row \<Longrightarrow>
   \<exists>atoms atomcoords. read_atoms rnd natoms i ls = Inr (atoms, atomcoords)"
proof (induction ls arbitrary: i)
  case Nil
  then show ?case by simp
next
  case (Cons l ls)
  then obtain symbol tokens row where
    a: "split_ws l = symbol # tokens" "floats rnd (take 3 tokens) = Inr row"
    by auto
  from Cons obtain atoms atomcoords where
    "read_atoms rnd natoms (Suc i) ls = Inr (atoms, atomcoords)"
    by fastforce
  with a show ?case by simp
qed

section \<open>Shifting the surface: properties\<close>

lemma shift_rows_ok:
  "\<forall>r \<in> set rows. length r = 3 \<Longrightarrow>
     shift_rows rnd shift rows = Inr (map (\<lambda>r. (r ! 0, r ! 1, rnd (r ! 2 - shift))) rows)"
proof (induction rows)
  case Nil
  then show ?case by simp
next
  case (Cons row rows)
  then have "length row = 3" by simp
  then obtain x y z where "row = [x, y, z]"
    by (auto simp: length_Suc_conv numeral_3_eq_3)
  with Cons show ?case by simp
qed

lemma mean_last_column_ok:
  assumes "atomcoords \<noteq> []" and "\<forall>r \<in> set atomcoords. length r = 3"
  shows "mean_last_column rnd atomcoords =
           Inr (rnd (np_sum rnd (map (\<lambda>r. r ! 2) atomcoords) / real (length atomcoords)))"
proof -
  from assms obtain row rows where c: "atomcoords = row # rows" by (cases atomcoords) auto
  have "last r = r ! 2" if "r \<in> set atomcoords" for r
  proof -
    from that assms(2) have "length r = 3" by simp
    then obtain x y z where "r = [x, y, z]"
      by (auto simp: length_Suc_conv numeral_3_eq_3)
    then show ?thesis by simp
  qed
  then have m: "map last atomcoords = map (\<lambda>r. r ! 2) atomcoords" by simp
  from assms(2) c have "list_all (\<lambda>r. length r = length row) rows" "row \<noteq> []"
    by (auto simp: list_all_iff)
  then have "mean_last_column rnd (row # rows) =
      Inr (rnd (np_sum rnd (map last (row # rows)) / real (length (row # rows))))"
    unfolding mean_last_column_def by simp
  then show ?thesis unfolding c [symmetric] m .
qed

lemma shift_rows_three:
  "shift_rows rnd shift rows = Inr shft \<Longrightarrow> \<forall>r \<in> set rows. length r = 3"
proof (induction rows arbitrary: shft)
  case Nil
  then show ?case by simp
next
  case (Cons row rows)
  then show ?case
    by (auto split: list.splits sum.splits)
qed

lemma shift_rows_length:
  "shift_rows rnd shift rows = Inr shft \<Longrightarrow> length shft = length rows"
proof (induction rows arbitrary: shft)
  case Nil
  then show ?case by simp
next
  case (Cons row rows)
  then show ?case
    by (auto split: list.splits sum.splits)
qed

lemma shift_structure_length:
  "shift_structure rnd atomcoords = Inr (shift, shft) \<Longrightarrow> length shft = length atomcoords"
  by (auto simp: shift_structure_def shift_rows_length split: sum.splits)

text \<open>The sum on short lists, and a list of eight numbers where the sum of numpy is
  not the sum from left to right.\<close>

lemma pairwise_sum_small: "length xs < 8 \<Longrightarrow> pairwise_sum rnd xs = seq_sum rnd 0 xs"
  by (subst pairwise_sum.simps) simp

lemma pairwise_sum_block:
  "8 \<le> length xs \<Longrightarrow> length xs \<le> 128 \<Longrightarrow> pairwise_sum rnd xs = block_sum rnd xs"
  by (subst pairwise_sum.simps) simp

lemma add_chunks_Nil: "add_chunks rnd r [] = r"
  by (subst add_chunks.simps) simp

lemma np_sum_eight:
  "np_sum round_f64 (map (\<lambda>k. round_f64 (real k / 10)) [1, 2, 3, 4, 5, 6, 7, 8])
     = 8106479329266893 / 2251799813685248"
  "seq_sum round_f64 0 (map (\<lambda>k. round_f64 (real k / 10)) [1, 2, 3, 4, 5, 6, 7, 8])
     = 2026619832316723 / 562949953421312"
  by (simp_all add: np_sum_def pairwise_sum_block block_sum_def add_chunks_Nil seq_sum_def f64_eval)

section \<open>Rounding errors of the sum and of the shift\<close>

lemma rel_error_nonneg: "rel_error rnd eps \<Longrightarrow> 0 \<le> eps"
proof -
  assume "rel_error rnd eps"
  then have "\<bar>rnd 1 - 1\<bar> \<le> eps * \<bar>1\<bar>" unfolding rel_error_def by blast
  then show ?thesis by simp
qed

lemma approx_exact: "approx eps 0 x x \<bar>x\<bar>"
  by (simp add: approx_def)

lemma approx_zero: "approx eps 0 0 0 0"
  by (simp add: approx_def)

lemma approx_mono:
  assumes "0 \<le> eps" and "k \<le> k'" and "approx eps k c s t"
  shows "approx eps k' c s t"
proof -
  from assms(3) have t: "0 \<le> t" and b: "\<bar>c - s\<bar> \<le> ((1 + eps) ^ k - 1) * t" and s: "\<bar>s\<bar> \<le> t"
    by (auto simp: approx_def)
  from assms(1,2) have "(1 + eps) ^ k \<le> (1 + eps) ^ k'"
    by (intro power_increasing) simp_all
  then have "((1 + eps) ^ k - 1) * t \<le> ((1 + eps) ^ k' - 1) * t"
    using t by (intro mult_right_mono) simp_all
  with b s show ?thesis by (simp add: approx_def)
qed

lemma approx_neg: "approx eps k c s t \<Longrightarrow> approx eps k (- c) (- s) t"
  by (simp add: approx_def abs_minus_commute)

lemma approx_add:
  assumes r: "rel_error rnd eps"
    and a: "approx eps k1 a s1 t1" and b: "approx eps k2 b s2 t2"
  shows "approx eps (Suc (max k1 k2)) (rnd (a + b)) (s1 + s2) (t1 + t2)"
proof -
  note e = rel_error_nonneg [OF r]
  define g where "g = (1 + eps) ^ max k1 k2 - 1"
  have g: "0 \<le> g" unfolding g_def using e by (simp add: one_le_power)
  from approx_mono [OF e _ a, of "max k1 k2"] have a': "\<bar>s1\<bar> \<le> t1" "\<bar>a - s1\<bar> \<le> g * t1"
    by (simp_all add: approx_def g_def)
  from approx_mono [OF e _ b, of "max k1 k2"] have b': "\<bar>s2\<bar> \<le> t2" "\<bar>b - s2\<bar> \<le> g * t2"
    by (simp_all add: approx_def g_def)
  have ab: "\<bar>a + b\<bar> \<le> (1 + g) * (t1 + t2)"
  proof -
    have "\<bar>a + b\<bar> \<le> \<bar>s1\<bar> + \<bar>s2\<bar> + \<bar>a - s1\<bar> + \<bar>b - s2\<bar>" by linarith
    also have "\<dots> \<le> t1 + t2 + g * t1 + g * t2" using a' b' by linarith
    finally show ?thesis by (simp add: algebra_simps)
  qed
  from r have "\<bar>rnd (a + b) - (a + b)\<bar> \<le> eps * \<bar>a + b\<bar>"
    unfolding rel_error_def by blast
  also have "\<dots> \<le> eps * ((1 + g) * (t1 + t2))"
    using ab e by (rule mult_left_mono)
  finally have rr: "\<bar>rnd (a + b) - (a + b)\<bar> \<le> eps * ((1 + g) * (t1 + t2))" .
  have "\<bar>rnd (a + b) - (s1 + s2)\<bar> \<le> \<bar>rnd (a + b) - (a + b)\<bar> + \<bar>a - s1\<bar> + \<bar>b - s2\<bar>"
    by linarith
  also have "\<dots> \<le> eps * ((1 + g) * (t1 + t2)) + g * t1 + g * t2"
    using rr a' b' by linarith
  also have "\<dots> = ((1 + eps) * (1 + g) - 1) * (t1 + t2)"
    by (simp add: algebra_simps)
  also have "(1 + eps) * (1 + g) = (1 + eps) ^ Suc (max k1 k2)"
    by (simp add: g_def)
  finally have "\<bar>rnd (a + b) - (s1 + s2)\<bar> \<le> ((1 + eps) ^ Suc (max k1 k2) - 1) * (t1 + t2)" .
  moreover have "\<bar>s1 + s2\<bar> \<le> t1 + t2" using a' b' by linarith
  ultimately show ?thesis by (simp add: approx_def)
qed

lemma approx_div:
  assumes r: "rel_error rnd eps" and d: "0 < d" and a: "approx eps k c s t"
  shows "approx eps (Suc k) (rnd (c / d)) (s / d) (t / d)"
proof -
  note e = rel_error_nonneg [OF r]
  define g where "g = (1 + eps) ^ k - 1"
  have g: "0 \<le> g" unfolding g_def using e by (simp add: one_le_power)
  from a have a': "\<bar>s\<bar> \<le> t" "\<bar>c - s\<bar> \<le> g * t"
    by (simp_all add: approx_def g_def)
  have c: "\<bar>c\<bar> \<le> (1 + g) * t"
  proof -
    have "\<bar>c\<bar> \<le> \<bar>s\<bar> + \<bar>c - s\<bar>" by linarith
    also have "\<dots> \<le> t + g * t" using a' by linarith
    finally show ?thesis by (simp add: algebra_simps)
  qed
  from r have "\<bar>rnd (c / d) - c / d\<bar> \<le> eps * \<bar>c / d\<bar>"
    unfolding rel_error_def by blast
  also have "\<bar>c / d\<bar> = \<bar>c\<bar> / d" using d by simp
  also have "eps * (\<bar>c\<bar> / d) \<le> eps * ((1 + g) * t / d)"
    using c e d by (intro mult_left_mono divide_right_mono) simp_all
  finally have rr: "\<bar>rnd (c / d) - c / d\<bar> \<le> eps * ((1 + g) * t / d)" .
  have "\<bar>c / d - s / d\<bar> = \<bar>c - s\<bar> / d"
    using d by (simp add: diff_divide_distrib [symmetric])
  also have "\<dots> \<le> g * t / d" using a' d by (intro divide_right_mono) simp_all
  finally have cs: "\<bar>c / d - s / d\<bar> \<le> g * t / d" .
  have "\<bar>rnd (c / d) - s / d\<bar> \<le> \<bar>rnd (c / d) - c / d\<bar> + \<bar>c / d - s / d\<bar>"
    by linarith
  also have "\<dots> \<le> eps * ((1 + g) * t / d) + g * t / d" using rr cs by linarith
  also have "\<dots> = ((1 + eps) * (1 + g) - 1) * (t / d)"
    by (simp add: algebra_simps add_divide_distrib)
  also have "(1 + eps) * (1 + g) = (1 + eps) ^ Suc k"
    by (simp add: g_def)
  finally have "\<bar>rnd (c / d) - s / d\<bar> \<le> ((1 + eps) ^ Suc k - 1) * (t / d)" .
  moreover have "\<bar>s / d\<bar> \<le> t / d"
    using a' d by (simp add: divide_right_mono)
  ultimately show ?thesis by (simp add: approx_def)
qed

lemma seq_sum_approx:
  assumes r: "rel_error rnd eps"
  shows "approx eps k res s t \<Longrightarrow>
     approx eps (k + length xs) (seq_sum rnd res xs) (s + sum_list xs) (t + sum_list (map abs xs))"
proof (induction xs arbitrary: k res s t)
  case Nil
  then show ?case by (simp add: seq_sum_def)
next
  case (Cons x xs)
  from approx_add [OF r Cons.prems approx_exact [of eps x]]
  have "approx eps (Suc k) (rnd (res + x)) (s + x) (t + \<bar>x\<bar>)" by simp
  from Cons.IH [OF this] show ?case
    by (simp add: seq_sum_def add.assoc)
qed

lemma sum_list_map2_add:
  "length xs = length ys \<Longrightarrow>
     sum_list (map2 (\<lambda>a x. f a + g x) xs ys) = sum_list (map f xs) + sum_list (map g ys)"
  for f g :: "real \<Rightarrow> real"
  by (induction xs ys rule: list_induct2) simp_all

lemma sum_list_take_drop: "sum_list xs = sum_list (take n xs) + sum_list (drop n xs)"
  for xs :: "real list"
  by (metis append_take_drop_id sum_list_append)

lemma list_8:
  assumes "length l = 8"
  obtains a b c d e f g h where "l = [a, b, c, d, e, f, g, h]"
proof -
  from assms obtain a l1 where "l = a # l1" "length l1 = 7" by (cases l) auto
  moreover then obtain b l2 where "l1 = b # l2" "length l2 = 6" by (cases l1) auto
  moreover then obtain c l3 where "l2 = c # l3" "length l3 = 5" by (cases l2) auto
  moreover then obtain d l4 where "l3 = d # l4" "length l4 = 4" by (cases l3) auto
  moreover then obtain e l5 where "l4 = e # l5" "length l5 = 3" by (cases l4) auto
  moreover then obtain f l6 where "l5 = f # l6" "length l6 = 2" by (cases l5) auto
  moreover then obtain g l7 where "l6 = g # l7" "length l7 = 1" by (cases l6) auto
  moreover then obtain h where "l7 = [h]" by (cases l7) auto
  ultimately show ?thesis using that by blast
qed

lemma sum_list_8:
  fixes l :: "real list"
  assumes "length l = 8"
  shows "sum_list l = ((l ! 0 + l ! 1) + (l ! 2 + l ! 3)) + ((l ! 4 + l ! 5) + (l ! 6 + l ! 7))"
proof -
  from assms obtain a b c d e f g h where "l = [a, b, c, d, e, f, g, h]" by (rule list_8)
  then show ?thesis by simp
qed

lemma tree_approx:
  assumes r: "rel_error rnd eps"
    and l: "length r8 = 8" "length ss = 8" "length ts = 8"
    and a: "\<forall>j < 8. approx eps k (r8 ! j) (ss ! j) (ts ! j)"
  shows "approx eps (k + 3)
           (rnd (rnd (rnd (r8 ! 0 + r8 ! 1) + rnd (r8 ! 2 + r8 ! 3))
                 + rnd (rnd (r8 ! 4 + r8 ! 5) + rnd (r8 ! 6 + r8 ! 7))))
           (sum_list ss) (sum_list ts)"
proof -
  have p: "approx eps (Suc k) (rnd (r8 ! i + r8 ! j)) (ss ! i + ss ! j) (ts ! i + ts ! j)"
    if "i < 8" "j < 8" for i j
    using approx_add [OF r a [rule_format, OF that(1)] a [rule_format, OF that(2)]] by simp
  have q: "approx eps (Suc (Suc k)) (rnd (rnd (r8 ! i + r8 ! j) + rnd (r8 ! i' + r8 ! j')))
      ((ss ! i + ss ! j) + (ss ! i' + ss ! j')) ((ts ! i + ts ! j) + (ts ! i' + ts ! j'))"
    if "i < 8" "j < 8" "i' < 8" "j' < 8" for i j i' j'
    using approx_add [OF r p [OF that(1,2)] p [OF that(3,4)]] by simp
  have "approx eps (Suc (Suc (Suc k)))
           (rnd (rnd (rnd (r8 ! 0 + r8 ! 1) + rnd (r8 ! 2 + r8 ! 3))
                 + rnd (rnd (r8 ! 4 + r8 ! 5) + rnd (r8 ! 6 + r8 ! 7))))
           (((ss ! 0 + ss ! 1) + (ss ! 2 + ss ! 3)) + ((ss ! 4 + ss ! 5) + (ss ! 6 + ss ! 7)))
           (((ts ! 0 + ts ! 1) + (ts ! 2 + ts ! 3)) + ((ts ! 4 + ts ! 5) + (ts ! 6 + ts ! 7)))"
    using approx_add [OF r q [of 0 1 2 3] q [of 4 5 6 7]] by simp
  then show ?thesis
    unfolding sum_list_8 [OF l(2)] sum_list_8 [OF l(3)] by (simp add: numeral_3_eq_3)
qed

lemma add_chunks_approx:
  assumes r: "rel_error rnd eps"
  shows "length xs = 8 * m \<Longrightarrow> length r8 = 8 \<Longrightarrow> length ss = 8 \<Longrightarrow> length ts = 8 \<Longrightarrow>
     \<forall>j < 8. approx eps k (r8 ! j) (ss ! j) (ts ! j) \<Longrightarrow>
     \<exists>ss' ts'. length (add_chunks rnd r8 xs) = 8 \<and> length ss' = 8 \<and> length ts' = 8
       \<and> (\<forall>j < 8. approx eps (k + m) (add_chunks rnd r8 xs ! j) (ss' ! j) (ts' ! j))
       \<and> sum_list ss' = sum_list ss + sum_list xs
       \<and> sum_list ts' = sum_list ts + sum_list (map abs xs)"
proof (induction m arbitrary: xs r8 ss ts k)
  case 0
  then have "xs = []" by simp
  with 0 show ?case by (auto simp: add_chunks_Nil)
next
  case (Suc m)
  let ?c = "take 8 xs"
  let ?r = "map2 (\<lambda>a x. rnd (a + x)) r8 ?c"
  let ?ss = "map2 (\<lambda>a x. a + x) ss ?c"
  let ?ts = "map2 (\<lambda>a x. a + \<bar>x\<bar>) ts ?c"
  from Suc.prems(1) have lc: "length ?c = 8" and ld: "length (drop 8 xs) = 8 * m"
    by simp_all
  have unfold: "add_chunks rnd r8 xs = add_chunks rnd ?r (drop 8 xs)"
    using Suc.prems(1) by (subst add_chunks.simps) simp
  have l1: "length ?r = 8" "length ?ss = 8" "length ?ts = 8"
    using lc Suc.prems(2-4) by simp_all
  have a1: "\<forall>j < 8. approx eps (Suc k) (?r ! j) (?ss ! j) (?ts ! j)"
  proof (intro allI impI)
    fix j :: nat
    assume j: "j < 8"
    from approx_add [OF r Suc.prems(5) [rule_format, OF j] approx_exact [of eps "?c ! j"]]
    have "approx eps (Suc k) (rnd (r8 ! j + ?c ! j)) (ss ! j + ?c ! j) (ts ! j + \<bar>?c ! j\<bar>)"
      by simp
    then show "approx eps (Suc k) (?r ! j) (?ss ! j) (?ts ! j)"
      using j lc Suc.prems(2-4) by simp
  qed
  from Suc.IH [OF ld l1 a1] obtain ss' ts' where
    res: "length (add_chunks rnd ?r (drop 8 xs)) = 8" "length ss' = 8" "length ts' = 8"
      "\<forall>j < 8. approx eps (Suc k + m) (add_chunks rnd ?r (drop 8 xs) ! j) (ss' ! j) (ts' ! j)"
      "sum_list ss' = sum_list ?ss + sum_list (drop 8 xs)"
      "sum_list ts' = sum_list ?ts + sum_list (map abs (drop 8 xs))"
    by blast
  have s1: "sum_list ?ss = sum_list ss + sum_list ?c"
    using sum_list_map2_add [of ss ?c "\<lambda>a. a" "\<lambda>x. x"] Suc.prems(3) lc by simp
  have s2: "sum_list ?ts = sum_list ts + sum_list (map abs ?c)"
    using sum_list_map2_add [of ts ?c "\<lambda>a. a" abs] Suc.prems(4) lc by simp
  have s3: "sum_list xs = sum_list ?c + sum_list (drop 8 xs)"
    by (rule sum_list_take_drop)
  have s4: "sum_list (map abs xs) = sum_list (map abs ?c) + sum_list (map abs (drop 8 xs))"
    using sum_list_take_drop [of "map abs xs" 8] by (simp add: take_map drop_map)
  from res s1 s2 s3 s4 show ?case
    unfolding unfold by (intro exI [of _ ss'] exI [of _ ts']) simp
qed

lemma block_sum_approx:
  assumes r: "rel_error rnd eps" and n: "8 \<le> length xs"
  shows "approx eps (length xs) (block_sum rnd xs) (sum_list xs) (sum_list (map abs xs))"
proof -
  note e = rel_error_nonneg [OF r]
  define m where "m = length xs - length xs mod 8"
  define c where "c = (m - 8) div 8"
  have m8: "8 \<le> m" "m \<le> length xs" "m - 8 = 8 * c" "length xs - m = length xs mod 8"
    unfolding m_def c_def using n by presburger+
  let ?first = "take 8 xs"
  let ?mid = "drop 8 (take m xs)"
  let ?rest = "drop m xs"
  have l: "length ?first = 8" "length (map abs ?first) = 8" "length ?mid = 8 * c"
    "length ?rest = length xs mod 8"
    using n m8 by simp_all
  have a0: "\<forall>j < 8. approx eps 0 (?first ! j) (?first ! j) (map abs ?first ! j)"
    using l(1) by (simp add: approx_exact)
  from add_chunks_approx [OF r l(3) l(1) l(1) l(2) a0] obtain ss ts where
    res: "length (add_chunks rnd ?first ?mid) = 8" "length ss = 8" "length ts = 8"
      "\<forall>j < 8. approx eps (0 + c) (add_chunks rnd ?first ?mid ! j) (ss ! j) (ts ! j)"
      "sum_list ss = sum_list ?first + sum_list ?mid"
      "sum_list ts = sum_list (map abs ?first) + sum_list (map abs ?mid)"
    by blast
  note t = tree_approx [OF r res(1-4)]
  note s = seq_sum_approx [OF r t, of ?rest]
  have split: "xs = ?first @ ?mid @ ?rest"
  proof -
    have "take m xs = take 8 (take m xs) @ drop 8 (take m xs)"
      by (rule append_take_drop_id [symmetric])
    also have "take 8 (take m xs) = take 8 xs" using m8(1) by (simp add: min_def)
    finally have "take m xs = ?first @ ?mid" .
    then show ?thesis by (metis append_assoc append_take_drop_id)
  qed
  have s1: "sum_list ss + sum_list ?rest = sum_list xs"
    unfolding res(5) by (subst (4) split) simp
  have s2: "sum_list ts + sum_list (map abs ?rest) = sum_list (map abs xs)"
    unfolding res(6) by (subst (4) split) simp
  have b: "block_sum rnd xs = seq_sum rnd
      (rnd (rnd (rnd (add_chunks rnd ?first ?mid ! 0 + add_chunks rnd ?first ?mid ! 1)
                 + rnd (add_chunks rnd ?first ?mid ! 2 + add_chunks rnd ?first ?mid ! 3))
            + rnd (rnd (add_chunks rnd ?first ?mid ! 4 + add_chunks rnd ?first ?mid ! 5)
                   + rnd (add_chunks rnd ?first ?mid ! 6 + add_chunks rnd ?first ?mid ! 7))))
      ?rest"
    by (simp add: block_sum_def Let_def m_def)
  have k: "0 + c + 3 + length ?rest \<le> length xs"
    using m8 l(4) by linarith
  from s have "approx eps (0 + c + 3 + length ?rest) (block_sum rnd xs) (sum_list xs)
      (sum_list (map abs xs))"
    unfolding b s1 s2 .
  from approx_mono [OF e k this] show ?thesis .
qed

lemma pairwise_sum_approx:
  "rel_error rnd eps \<Longrightarrow>
     approx eps (length xs) (pairwise_sum rnd xs) (sum_list xs) (sum_list (map abs xs))"
proof (induction rnd xs rule: pairwise_sum.induct)
  case (1 rnd xs)
  note r = "1.prems"
  note e = rel_error_nonneg [OF r]
  consider "length xs < 8" | "8 \<le> length xs" "length xs \<le> 128" | "128 < length xs"
    by linarith
  then show ?case
  proof cases
    case 1
    from seq_sum_approx [OF r approx_zero, of xs] show ?thesis
      by (simp add: pairwise_sum_small [OF 1])
  next
    case 2
    from block_sum_approx [OF r 2(1)] show ?thesis
      by (simp add: pairwise_sum_block [OF 2])
  next
    case 3
    define n2 where "n2 = length xs div 2 - length xs div 2 mod 8"
    from 3 have c: "\<not> length xs < 8" "\<not> length xs \<le> 128" by simp_all
    from 3 have "64 \<le> length xs div 2" and "length xs div 2 < length xs"
      by simp_all
    moreover have "length xs div 2 mod 8 < 8" by simp
    ultimately have n2: "0 < n2" "n2 < length xs"
      unfolding n2_def by linarith+
    have u: "pairwise_sum rnd xs = rnd (pairwise_sum rnd (take n2 xs) + pairwise_sum rnd (drop n2 xs))"
      using c by (subst pairwise_sum.simps) (simp add: n2_def)
    note a = "1.IH"(1) [OF c r, folded n2_def] "1.IH"(2) [OF c r, folded n2_def]
    from approx_add [OF r a]
    have "approx eps (Suc (max (length (take n2 xs)) (length (drop n2 xs))))
        (pairwise_sum rnd xs) (sum_list (take n2 xs) + sum_list (drop n2 xs))
        (sum_list (map abs (take n2 xs)) + sum_list (map abs (drop n2 xs)))"
      unfolding u .
    moreover have "sum_list (take n2 xs) + sum_list (drop n2 xs) = sum_list xs"
      by (rule sum_list_take_drop [symmetric])
    moreover have "sum_list (map abs (take n2 xs)) + sum_list (map abs (drop n2 xs))
        = sum_list (map abs xs)"
      using sum_list_take_drop [of "map abs xs" n2] by (simp add: take_map drop_map)
    moreover have "Suc (max (length (take n2 xs)) (length (drop n2 xs))) \<le> length xs"
      using n2 by simp
    ultimately show ?thesis
      using approx_mono [OF e] by metis
  qed
qed

lemma np_sum_approx:
  assumes r: "rel_error rnd eps"
  shows "approx eps (Suc (length xs)) (np_sum rnd xs) (sum_list xs) (sum_list (map abs xs))"
  using approx_add [OF r approx_zero pairwise_sum_approx [OF r, of xs]]
  by (simp add: np_sum_def)

lemma rel_error_id: "rel_error id 0"
  by (simp add: rel_error_def)

lemma rel_error_round_f64: "rel_error round_f64 (1 / 2 ^ 53)"
  unfolding rel_error_def
proof
  fix x :: real
  show "\<bar>round_f64 x - x\<bar> \<le> 1 / 2 ^ 53 * \<bar>x\<bar>"
  proof (cases "x = 0")
    case True
    then show ?thesis by (simp add: round_f64_def)
  next
    case False
    have "\<bar>round_f64 x - x\<bar> \<le> 2 powi (exponent2 x - 53)" by (rule round_f64_near)
    also have "\<dots> = 2 powi exponent2 x / 2 ^ 53"
      by (simp add: power_int_diff)
    also have "\<dots> \<le> \<bar>x\<bar> / 2 ^ 53"
      using exponent2_bounds [OF False] by (intro divide_right_mono) simp_all
    finally show ?thesis by simp
  qed
qed

lemma sum_list_abs_diff:
  fixes f g h :: "'a \<Rightarrow> real"
  shows "\<forall>x \<in> set xs. \<bar>f x - g x\<bar> \<le> h x \<Longrightarrow>
     \<bar>sum_list (map f xs) - sum_list (map g xs)\<bar> \<le> sum_list (map h xs)"
proof (induction xs)
  case Nil
  then show ?case by simp
next
  case (Cons x xs)
  then have "\<bar>f x - g x\<bar> \<le> h x"
    and "\<bar>sum_list (map f xs) - sum_list (map g xs)\<bar> \<le> sum_list (map h xs)"
    by simp_all
  then show ?case by simp
qed

lemma sum_list_affine:
  fixes f :: "'a \<Rightarrow> real"
  shows "sum_list (map (\<lambda>x. a * f x + c) xs) = a * sum_list (map f xs) + real (length xs) * c"
  by (induction xs) (simp_all add: algebra_simps)

lemma shifted_sum_bound:
  fixes zs :: "real list"
  assumes r: "rel_error rnd eps" and n: "zs \<noteq> []"
  defines "shift \<equiv> rnd (np_sum rnd zs / real (length zs))"
  shows "\<bar>shift - sum_list zs / real (length zs)\<bar>
           \<le> ((1 + eps) ^ (length zs + 2) - 1) * (sum_list (map abs zs) / real (length zs))"
    and "\<bar>sum_list (map (\<lambda>z. rnd (z - shift)) zs) / real (length zs)\<bar>
           \<le> 2 * ((1 + eps) ^ (length zs + 3) - 1) * (sum_list (map abs zs) / real (length zs))"
proof -
  define len where "len = real (length zs)"
  define mu where "mu = sum_list zs / len"
  define Z where "Z = sum_list (map abs zs)"
  define g where "g = (1 + eps) ^ (length zs + 3) - 1"
  from n have len: "0 < len" by (simp add: len_def)
  from approx_div [OF r len np_sum_approx [OF r, of zs]]
  have a: "approx eps (length zs + 2) shift mu (Z / len)"
    by (simp add: shift_def mu_def Z_def len_def)
  then show "\<bar>shift - sum_list zs / real (length zs)\<bar>
           \<le> ((1 + eps) ^ (length zs + 2) - 1) * (sum_list (map abs zs) / real (length zs))"
    by (simp add: approx_def mu_def Z_def len_def)
  have each: "\<bar>rnd (z - shift) - (z - mu)\<bar> \<le> g * (\<bar>z\<bar> + Z / len)" for z
  proof -
    have k: "Suc (max 0 (length zs + 2)) = length zs + 3" by simp
    from approx_add [OF r approx_exact [of eps z] approx_neg [OF a]]
    have "approx eps (length zs + 3) (rnd (z + - shift)) (z + - mu) (\<bar>z\<bar> + Z / len)"
      unfolding k .
    then show ?thesis unfolding approx_def g_def by simp
  qed
  then have "\<bar>sum_list (map (\<lambda>z. rnd (z - shift)) zs) - sum_list (map (\<lambda>z. z - mu) zs)\<bar>
      \<le> sum_list (map (\<lambda>z. g * (\<bar>z\<bar> + Z / len)) zs)"
    by (intro sum_list_abs_diff) simp
  moreover have "sum_list (map (\<lambda>z. z - mu) zs) = 0"
  proof -
    have "sum_list (map (\<lambda>z. z - mu) zs) = sum_list zs - len * mu"
      unfolding len_def using sum_list_affine [of 1 "\<lambda>z. z" "- mu" zs] by simp
    also have "\<dots> = 0" using len by (simp add: mu_def)
    finally show ?thesis .
  qed
  moreover have "sum_list (map (\<lambda>z. g * (\<bar>z\<bar> + Z / len)) zs) = 2 * g * Z"
  proof -
    have "sum_list (map (\<lambda>z. g * (\<bar>z\<bar> + Z / len)) zs)
        = sum_list (map (\<lambda>z. g * \<bar>z\<bar> + g * (Z / len)) zs)"
      by (simp add: algebra_simps)
    also have "\<dots> = g * (sum_list (map abs zs) + len * (Z / len))"
      unfolding sum_list_affine len_def by (simp only: distrib_left mult.left_commute mult.assoc)
    also have "\<dots> = 2 * g * Z" using len by (simp add: Z_def)
    finally show ?thesis .
  qed
  ultimately have "\<bar>sum_list (map (\<lambda>z. rnd (z - shift)) zs)\<bar> \<le> 2 * g * Z"
    by simp
  then have "\<bar>sum_list (map (\<lambda>z. rnd (z - shift)) zs)\<bar> / len \<le> 2 * g * Z / len"
    using len by (intro divide_right_mono) simp_all
  then show "\<bar>sum_list (map (\<lambda>z. rnd (z - shift)) zs) / real (length zs)\<bar>
           \<le> 2 * ((1 + eps) ^ (length zs + 3) - 1) * (sum_list (map abs zs) / real (length zs))"
    using len by (simp add: g_def Z_def len_def)
qed

section \<open>File names\<close>

lemma digit_char_value: "n < 10 \<Longrightarrow> of_char (digit_char n) = 48 + n"
proof -
  assume "n < 10"
  then have "n \<in> {0, 1, 2, 3, 4, 5, 6, 7, 8, 9}" by auto
  then show ?thesis by (auto simp: digit_char_def)
qed

lemma digits_value_snoc: "digits_value (s @ [c]) = 10 * digits_value s + (of_char c - 48)"
  by (simp add: digits_value_def)

lemma digits_value_dec_nat: "digits_value (dec_nat n) = n"
proof (induction n rule: dec_nat.induct)
  case (1 n)
  show ?case
  proof (cases "n < 10")
    case True
    then show ?thesis
      by (subst dec_nat.simps) (simp add: digits_value_def digit_char_value)
  next
    case False
    then have "digits_value (dec_nat (n div 10)) = n div 10" by (rule "1.IH")
    with False show ?thesis
      by (subst dec_nat.simps) (simp add: digits_value_snoc digit_char_value)
  qed
qed

lemma digits_value_zeros: "foldl (\<lambda>a c. 10 * a + (of_char c - 48)) 0 (replicate k CHR ''0'') = (0::nat)"
  by (induction k) simp_all

lemma digits_value_fmt_04d: "digits_value (fmt_04d i) = i"
  using digits_value_dec_nat [of i]
  by (simp add: fmt_04d_def rjust_def digits_value_def digits_value_zeros)

lemma fmt_04d_inj: "fmt_04d i = fmt_04d j \<Longrightarrow> i = j"
  by (metis digits_value_fmt_04d)

lemma newfile_name_inj: "newfile_name out i = newfile_name out j \<Longrightarrow> i = j"
  by (simp add: newfile_name_def fmt_04d_inj)

lemma newfile_name_not_bak: "newfile_name out i \<noteq> newfile_name out' j @ ''.BAK''"
proof
  assume "newfile_name out i = newfile_name out' j @ ''.BAK''"
  then have "last (newfile_name out i) = last (newfile_name out' j @ ''.BAK'')" by simp
  then show False by (simp add: newfile_name_def)
qed


section \<open>The loop that writes the files\<close>

lemma write_struct_ok:
  assumes "write_struct a natoms atoms shft i z w = (None, w')"
  shows "files w' (newfile_name (outname a) i) = Some (struct_text a natoms atoms shft z)"
    and "\<And>p. p \<noteq> newfile_name (outname a) i \<Longrightarrow> p \<noteq> newfile_name (outname a) i @ ''.BAK''
           \<Longrightarrow> files w' p = files w p"
    and "fault w' = fault w"
  using assms
  by (auto simp: write_struct_def backup_def os_rename_def open_write_def print_def Let_def
      split: sum.splits option.splits if_splits)

lemma write_loop_ok:
  assumes "write_loop a natoms atoms shft izs w = (None, w')" and "distinct (map fst izs)"
  shows "(\<forall>(i, z) \<in> set izs.
            files w' (newfile_name (outname a) i) = Some (struct_text a natoms atoms shft z))
       \<and> (\<forall>p. (\<forall>(i, z) \<in> set izs. p \<noteq> newfile_name (outname a) i
                     \<and> p \<noteq> newfile_name (outname a) i @ ''.BAK'') \<longrightarrow> files w' p = files w p)"
  using assms
proof (induction izs arbitrary: w)
  case Nil
  then show ?case by simp
next
  case (Cons iz izs)
  obtain i z where iz: "iz = (i, z)" by (cases iz)
  from Cons.prems(1) iz obtain w1 where
    s: "write_struct a natoms atoms shft i z w = (None, w1)"
    and l: "write_loop a natoms atoms shft izs w1 = (None, w')"
    by (auto split: prod.splits option.splits)
  from Cons.prems(2) iz have d: "distinct (map fst izs)" and ni: "i \<notin> fst ` set izs"
    by auto
  note IH = Cons.IH [OF l d]
  have keep: "files w' (newfile_name (outname a) i) = files w1 (newfile_name (outname a) i)"
  proof -
    have "\<forall>(j, y) \<in> set izs. newfile_name (outname a) i \<noteq> newfile_name (outname a) j
            \<and> newfile_name (outname a) i \<noteq> newfile_name (outname a) j @ ''.BAK''"
      using ni newfile_name_inj newfile_name_not_bak by force
    with IH show ?thesis by blast
  qed
  have 1: "files w' (newfile_name (outname a) i) = Some (struct_text a natoms atoms shft z)"
    using keep write_struct_ok(1) [OF s] by simp
  have 2: "files w' p = files w p"
    if "\<forall>(j, y) \<in> set (iz # izs). p \<noteq> newfile_name (outname a) j
          \<and> p \<noteq> newfile_name (outname a) j @ ''.BAK''" for p
  proof -
    from that iz have a: "p \<noteq> newfile_name (outname a) i" "p \<noteq> newfile_name (outname a) i @ ''.BAK''"
      and b: "\<forall>(j, y) \<in> set izs. p \<noteq> newfile_name (outname a) j
          \<and> p \<noteq> newfile_name (outname a) j @ ''.BAK''"
      by auto
    from IH b have "files w' p = files w1 p" by blast
    with write_struct_ok(2) [OF s a] show ?thesis by simp
  qed
  from 1 2 IH iz show ?case by auto
qed

lemma enumerate_distinct: "distinct (map fst (enumerate xs))"
  by (simp add: enumerate_def)

lemma enumerate_set: "i < length xs \<Longrightarrow> (i, xs ! i) \<in> set (enumerate xs)"
  unfolding enumerate_def set_zip by (simp, rule exI [of _ i]) simp


lemma main_ok:
  assumes "main rnd a w = (None, w')"
  obtains zs content natoms atoms atomcoords shift shft where
    "zvalues rnd (d_min a) (d_max a) (d_step a) = Inr zs"
    "open_read w (inpxyz a) = Inr content"
    "read_structure rnd (map strip (readlines content)) = Inr (natoms, atoms, atomcoords)"
    "shift_structure rnd atomcoords = Inr (shift, shft)"
    "write_loop a natoms atoms shft (enumerate zs) w = (None, w')"
  using assms
  by (auto simp: main_def split: sum.splits prod.splits)

lemma write_struct_no_fault:
  assumes "fault w = (\<lambda>c. None)"
  shows "\<exists>w'. write_struct a natoms atoms shft i z w = (None, w') \<and> fault w' = (\<lambda>c. None)"
  using assms
  by (auto simp: write_struct_def backup_def os_rename_def open_write_def print_def Let_def
      split: option.splits)

lemma write_loop_no_fault:
  assumes "fault w = (\<lambda>c. None)"
  shows "\<exists>w'. write_loop a natoms atoms shft izs w = (None, w')"
  using assms
proof (induction izs arbitrary: w)
  case Nil
  then show ?case by simp
next
  case (Cons iz izs)
  obtain i z where iz: "iz = (i, z)" by (cases iz)
  from write_struct_no_fault [OF Cons.prems] obtain w1 where
    s: "write_struct a natoms atoms shft i z w = (None, w1)" and f: "fault w1 = (\<lambda>c. None)"
    by blast
  from Cons.IH [OF f] obtain w' where "write_loop a natoms atoms shft izs w1 = (None, w')"
    by blast
  with s iz show ?case by simp
qed

lemma shift_structure_Nil: "shift_structure rnd [] = Inl IndexError"
  by (simp add: shift_structure_def mean_last_column_def)

lemma shift_structure_rows:
  assumes "shift_structure rnd atomcoords = Inr (shift, shft)"
  shows "\<forall>r \<in> set atomcoords. length r = 3"
    and "shft = map (\<lambda>r. (r ! 0, r ! 1, rnd (r ! 2 - shift))) atomcoords"
    and "atomcoords \<noteq> []"
    and "shift = rnd (np_sum rnd (map (\<lambda>r. r ! 2) atomcoords) / real (length atomcoords))"
proof -
  from assms obtain s: "shift_rows rnd shift atomcoords = Inr shft"
    and m: "mean_last_column rnd atomcoords = Inr shift"
    by (auto simp: shift_structure_def split: sum.splits)
  from shift_rows_three [OF s] show t: "\<forall>r \<in> set atomcoords. length r = 3" .
  from s shift_rows_ok [OF t, of rnd shift]
  show "shft = map (\<lambda>r. (r ! 0, r ! 1, rnd (r ! 2 - shift))) atomcoords" by simp
  from assms show n: "atomcoords \<noteq> []" by (auto simp: shift_structure_Nil)
  from m mean_last_column_ok [OF n t, of rnd]
  show "shift = rnd (np_sum rnd (map (\<lambda>r. r ! 2) atomcoords) / real (length atomcoords))"
    by simp
qed

lemma main_parsed:
  assumes "main rnd a w = (None, w')"
    and "open_read w (inpxyz a) = Inr content"
    and "read_header (map strip (readlines content)) = Inr (natoms, rest)"
  obtains zs atoms atomcoords shift shft where
    "zvalues rnd (d_min a) (d_max a) (d_step a) = Inr zs"
    "read_atoms rnd natoms 0 rest = Inr (atoms, atomcoords)"
    "shift_structure rnd atomcoords = Inr (shift, shft)"
    "write_loop a natoms atoms shft (enumerate zs) w = (None, w')"
proof -
  from assms(1) obtain zs content' natoms' atoms atomcoords shift shft where
    z: "zvalues rnd (d_min a) (d_max a) (d_step a) = Inr zs"
    and c: "open_read w (inpxyz a) = Inr content'"
    and r: "read_structure rnd (map strip (readlines content')) = Inr (natoms', atoms, atomcoords)"
    and s: "shift_structure rnd atomcoords = Inr (shift, shft)"
    and l: "write_loop a natoms' atoms shft (enumerate zs) w = (None, w')"
    by (rule main_ok)
  from c assms(2) have "content' = content" by simp
  with r assms(3) have "natoms' = natoms" "read_atoms rnd natoms 0 rest = Inr (atoms, atomcoords)"
    by (auto simp: read_structure_def split: sum.splits prod.splits)
  with z s l that show ?thesis by blast
qed

lemma enumerate_3: "enumerate [x, y, z] = [(0, x), (1, y), (2, z)]"
  by (simp add: enumerate_def upt_conv_Cons)



section \<open>Evaluating the example runs\<close>

lemma short_args_sel:
  "inpxyz short_args = ''surf.xyz''" "outname short_args = ''out''"
  "d_min short_args = 2" "d_max short_args = 2" "d_step short_args = 1"
  "atom_symb short_args = ''H''" "xcoord short_args = 0" "ycoord short_args = 0"
  by (simp_all add: short_args_def)

lemma short_zvalues: "zvalues round_f64 2 2 1 = Inr [2]"
  by (simp add: zvalues_def arange_def f64_eval upt_conv_Cons)

lemma short_read:
  "read_structure round_f64 (map strip (readlines short_xyz)) = Inr (3, [''Cu''], [[0, 0, 1]])"
  by (simp add: short_xyz_def read_structure_def read_header_def parse_eval f64_eval)

lemma short_shift: "shift_structure round_f64 [[0, 0, 1]] = Inr (1, [(0, 0, 0)])"
  by (simp add: shift_structure_def mean_last_column_def np_sum_def pairwise_sum_small seq_sum_def f64_eval)

lemma name_0: "newfile_name ''out'' 0 = ''out_0000.xyz''"
  by (simp add: newfile_name_def text_eval)

lemma short_lines:
  "fmt_4d 4 = ''   4''" "fmt_8f 2 = ''2.00000000''"
  "atom_line ''H'' 0 0 2 = ''H      0.00000000    0.00000000    2.00000000'' @ [LF]"
  "atom_line ''Cu'' 0 0 0 = ''Cu     0.00000000    0.00000000    0.00000000'' @ [LF]"
  by (simp_all add: atom_line_def text_eval)

lemma short_text:
  "struct_text short_args 3 [''Cu''] [(0, 0, 0)] 2 =
      ''   4'' @ [LF] @ ''Atom-surface distance: 2.00000000'' @ [LF]
      @ ''H      0.00000000    0.00000000    2.00000000'' @ [LF]
      @ ''Cu     0.00000000    0.00000000    0.00000000'' @ [LF]"
  by (simp add: struct_text_def struct_lines_def short_args_sel short_lines)

lemmas step_eval = enumerate_def write_struct_def backup_def os_rename_def open_read_def
  open_write_def print_def

lemma short_main:
  "main round_f64 short_args short_world =
   (None, short_world\<lparr>files := (files short_world)
        (''out_0000.xyz'' \<mapsto> struct_text short_args 3 [''Cu''] [(0, 0, 0)] 2),
      stdout := ''Writing new file for d=2.00000000 ... done! (New file: out_0000.xyz)'' @ [LF]\<rparr>)"
  by (simp add: main_def short_args_sel short_zvalues short_read short_shift step_eval
      name_0 short_lines short_world_def)

lemma scenario_args_sel:
  "inpxyz scenario_args = ''surf.xyz''" "outname scenario_args = ''out''"
  "d_min scenario_args = 2" "d_max scenario_args = 4" "d_step scenario_args = 1"
  "atom_symb scenario_args = ''H''" "xcoord scenario_args = 0" "ycoord scenario_args = 0"
  by (simp_all add: scenario_args_def)

lemma scenario_zvalues: "zvalues round_f64 2 4 1 = Inr [2, 3, 4]"
  by (simp add: zvalues_def arange_def f64_eval upt_conv_Cons)

lemma scenario_read:
  "read_structure round_f64 (map strip (readlines scenario_xyz)) =
     Inr (3, [''Cu'', ''Cu'', ''Cu''], [[0, 0, 1], [3 / 2, 0, 2], [0, 3 / 2, 3]])"
  by (simp add: scenario_xyz_def read_structure_def read_header_def parse_eval f64_eval)

lemma scenario_shift:
  "shift_structure round_f64 [[x1, y1, 1], [x2, y2, 2], [x3, y3, 3]] =
     Inr (2, [(x1, y1, - 1), (x2, y2, 0), (x3, y3, 1)])"
proof -
  have "round_f64 3 = 3" "round_f64 6 = 6" "round_f64 2 = 2" "round_f64 1 = 1"
    "round_f64 (- 1) = - 1" "round_f64 0 = 0"
    by (simp_all add: f64_eval)
  then show ?thesis
    by (simp add: shift_structure_def mean_last_column_def np_sum_def pairwise_sum_small seq_sum_def)
qed

lemma name_1_2:
  "newfile_name out 0 = out @ ''_0000.xyz''"
  "newfile_name out (Suc 0) = out @ ''_0001.xyz''"
  "newfile_name out (Suc (Suc 0)) = out @ ''_0002.xyz''"
proof -
  have "newfile_name out 1 = out @ ''_0001.xyz''" "newfile_name out 2 = out @ ''_0002.xyz''"
    by (simp_all add: newfile_name_def text_eval)
  then show "newfile_name out (Suc 0) = out @ ''_0001.xyz''"
    "newfile_name out (Suc (Suc 0)) = out @ ''_0002.xyz''"
    by (simp_all add: numeral_2_eq_2)
  show "newfile_name out 0 = out @ ''_0000.xyz''"
    by (simp add: newfile_name_def text_eval)
qed

lemma scenario_lines:
  "fmt_4d 4 = ''   4''"
  "fmt_8f 2 = ''2.00000000''" "fmt_8f 3 = ''3.00000000''" "fmt_8f 4 = ''4.00000000''"
  "fmt_13_8f 0 = ''   0.00000000''" "fmt_13_8f (3 / 2) = ''   1.50000000''"
  "fmt_13_8f 1 = ''   1.00000000''" "fmt_13_8f (- 1) = ''  -1.00000000''"
  "fmt_13_8f 2 = ''   2.00000000''" "fmt_13_8f 3 = ''   3.00000000''"
  "fmt_13_8f 4 = ''   4.00000000''"
  "fmt_3s ''H'' = ''H  ''" "fmt_3s ''Cu'' = ''Cu ''"
  by (simp_all add: text_eval)

lemma scenario_main:
  "main round_f64 scenario_args scenario_world =
   (None, scenario_world\<lparr>files := (files scenario_world)
        (''out_0000.xyz'' \<mapsto> struct_text scenario_args 3 [''Cu'', ''Cu'', ''Cu'']
                                 [(0, 0, - 1), (3 / 2, 0, 0), (0, 3 / 2, 1)] 2,
         ''out_0001.xyz'' \<mapsto> struct_text scenario_args 3 [''Cu'', ''Cu'', ''Cu'']
                                 [(0, 0, - 1), (3 / 2, 0, 0), (0, 3 / 2, 1)] 3,
         ''out_0002.xyz'' \<mapsto> struct_text scenario_args 3 [''Cu'', ''Cu'', ''Cu'']
                                 [(0, 0, - 1), (3 / 2, 0, 0), (0, 3 / 2, 1)] 4),
      stdout := ''Writing new file for d=2.00000000 ... done! (New file: out_0000.xyz)'' @ [LF]
        @ ''Writing new file for d=3.00000000 ... done! (New file: out_0001.xyz)'' @ [LF]
        @ ''Writing new file for d=4.00000000 ... done! (New file: out_0002.xyz)'' @ [LF]\<rparr>)"
  by (simp add: main_def scenario_args_sel scenario_zvalues scenario_read scenario_shift
      step_eval name_1_2 scenario_lines scenario_world_def)

lemma probe_lines:
  "atom_line ''H'' 0 0 2 = ''H      0.00000000    0.00000000    2.00000000'' @ [LF]"
  "atom_line ''H'' 0 0 3 = ''H      0.00000000    0.00000000    3.00000000'' @ [LF]"
  "atom_line ''H'' 0 0 4 = ''H      0.00000000    0.00000000    4.00000000'' @ [LF]"
  by (simp_all add: atom_line_def scenario_lines)

lemma scenario_header:
  "read_header (map strip (readlines scenario_xyz)) =
     Inr (3, [''Cu 0.0 0.0 1.0'', ''Cu 1.5 0.0 2.0'', ''Cu 0.0 1.5 3.0''])"
  by (simp add: scenario_xyz_def read_header_def parse_eval)

lemma scenario_open: "open_read scenario_world (inpxyz scenario_args) = Inr scenario_xyz"
  "open_read second_world (inpxyz scenario_args) = Inr scenario_xyz"
  by (simp_all add: scenario_world_def second_world_def scenario_args_sel open_read_def)

lemma scenario_fst: "fst (main round_f64 scenario_args scenario_world) = None"
  by (simp add: scenario_main)

lemma scenario_run: "main round_f64 scenario_args scenario_world =
    (None, snd (main round_f64 scenario_args scenario_world))"
  by (simp add: prod_eq_iff scenario_fst)

lemma second_run: "main round_f64 scenario_args second_world =
    (None, snd (main round_f64 scenario_args second_world))"
proof -
  have "fault second_world = (\<lambda>c. None)" by (simp add: second_world_def)
  from write_loop_no_fault [OF this]
  obtain w' where "write_loop scenario_args 3 [''Cu'', ''Cu'', ''Cu'']
      [(0, 0, - 1), (3 / 2, 0, 0), (0, 3 / 2, 1)] (enumerate [2, 3, 4]) second_world = (None, w')"
    by blast
  then have "main round_f64 scenario_args second_world = (None, w')"
    using scenario_open(2)
    by (simp add: main_def scenario_args_sel scenario_zvalues scenario_read scenario_shift)
  then show ?thesis by simp
qed

lemma second_fst: "fst (main round_f64 scenario_args second_world) = None"
  by (subst second_run) simp



text \<open>The surface of three different atoms.\<close>

lemma alloy_header:
  "read_header (map strip (readlines alloy_xyz)) =
     Inr (3, [''Cu 0.0 0.0 1.0'', ''Ag 1.5 0.0 2.0'', ''Au 0.0 1.5 3.0''])"
  by (simp add: alloy_xyz_def read_header_def parse_eval)

lemma alloy_atoms:
  "read_atoms round_f64 3 0 [''Cu 0.0 0.0 1.0'', ''Ag 1.5 0.0 2.0'', ''Au 0.0 1.5 3.0''] =
     Inr ([''Cu'', ''Ag'', ''Au''], [[0, 0, 1], [3 / 2, 0, 2], [0, 3 / 2, 3]])"
  by (simp add: parse_eval f64_eval)

lemma alloy_tokens:
  "split_ws ''Cu 0.0 0.0 1.0'' = [''Cu'', ''0.0'', ''0.0'', ''1.0'']"
  "split_ws ''Ag 1.5 0.0 2.0'' = [''Ag'', ''1.5'', ''0.0'', ''2.0'']"
  "split_ws ''Au 0.0 1.5 3.0'' = [''Au'', ''0.0'', ''1.5'', ''3.0'']"
  "floats round_f64 [''0.0'', ''0.0'', ''1.0''] = Inr [0, 0, 1]"
  "floats round_f64 [''1.5'', ''0.0'', ''2.0''] = Inr [3 / 2, 0, 2]"
  "floats round_f64 [''0.0'', ''1.5'', ''3.0''] = Inr [0, 3 / 2, 3]"
  by (simp_all add: parse_eval f64_eval)

lemma alloy_read:
  "read_structure round_f64 (map strip (readlines alloy_xyz)) =
     Inr (3, [''Cu'', ''Ag'', ''Au''], [[0, 0, 1], [3 / 2, 0, 2], [0, 3 / 2, 3]])"
  by (simp add: alloy_xyz_def read_structure_def read_header_def parse_eval f64_eval)

lemma alloy_open: "open_read alloy_world (inpxyz scenario_args) = Inr alloy_xyz"
  by (simp add: alloy_world_def scenario_args_sel open_read_def)

lemma alloy_run: "main round_f64 scenario_args alloy_world =
    (None, snd (main round_f64 scenario_args alloy_world))"
proof -
  have "fault alloy_world = (\<lambda>c. None)" by (simp add: alloy_world_def)
  from write_loop_no_fault [OF this]
  obtain w' where "write_loop scenario_args 3 [''Cu'', ''Ag'', ''Au'']
      [(0, 0, - 1), (3 / 2, 0, 0), (0, 3 / 2, 1)] (enumerate [2, 3, 4]) alloy_world = (None, w')"
    by blast
  then have "main round_f64 scenario_args alloy_world = (None, w')"
    using alloy_open
    by (simp add: main_def scenario_args_sel scenario_zvalues alloy_read scenario_shift)
  then show ?thesis by simp
qed

lemma alloy_fst: "fst (main round_f64 scenario_args alloy_world) = None"
  by (subst alloy_run) simp

lemma alloy_lines:
  "atom_line ''Cu'' 0 0 (- 1) = ''Cu     0.00000000    0.00000000   -1.00000000'' @ [LF]"
  "atom_line ''Ag'' (3 / 2) 0 0 = ''Ag     1.50000000    0.00000000    0.00000000'' @ [LF]"
  "atom_line ''Au'' 0 (3 / 2) 1 = ''Au     0.00000000    1.50000000    1.00000000'' @ [LF]"
  by (simp_all add: atom_line_def text_eval)

lemma list_6:
  "length ls = 6 \<Longrightarrow> ls = [ls ! 0, ls ! 1, ls ! 2, ls ! 3, ls ! 4, ls ! 5]"
  by (auto simp: list_eq_iff_nth_eq less_Suc_eq numeral_eq_Suc)

lemma row_line:
  assumes "split_ws l = symbol # tokens" and "floats rnd (take 3 tokens) = Inr [x, y, z]"
    and "split_ws l = [s, t1, t2, t3]" and "floats rnd [t1, t2, t3] = Inr [a, b, c]"
  shows "symbol = s \<and> x = a \<and> y = b \<and> z = c"
  using assms by (auto simp del: floats.simps)




section \<open>The shift of the surface (C1)\<close>

text \<open>
  C1: for a surface of at least one atom, with three coordinates each, the program computes
  one number \<open>shift\<close>, the mean of the z coordinates as numpy computes it (the pairwise sum
  divided by the number of atoms); every atom keeps its symbol, its x and its y, and its z
  becomes the rounded \<open>z - shift\<close>.  When every operation has a relative error of at most
  \<open>eps\<close> (\<open>eps = 0\<close> in exact arithmetic, \<open>eps = 2\<^sup>-\<^sup>5\<^sup>3\<close> for binary64), the shift is the
  arithmetic mean of the z coordinates up to \<open>(1 + eps)\<^sup>n\<^sup>+\<^sup>2 - 1\<close> times the mean of their
  absolute values, and the mean of the shifted z coordinates is 0 up to
  \<open>2 ((1 + eps)\<^sup>n\<^sup>+\<^sup>3 - 1)\<close> times that: both are exact for \<open>eps = 0\<close>, and within the
  tolerance of the floats otherwise.
\<close>

theorem shift_structure_mean:
  assumes "atomcoords \<noteq> []" and "\<forall>r \<in> set atomcoords. length r = 3"
    and "length atoms = length atomcoords" and "rel_error rnd eps"
  shows "\<exists>shift shft. shift_structure rnd atomcoords = Inr (shift, shft)
       \<and> shift = rnd (np_sum rnd (map (\<lambda>r. r ! 2) atomcoords) / real (length atomcoords))
       \<and> \<bar>shift - sum_list (map (\<lambda>r. r ! 2) atomcoords) / real (length atomcoords)\<bar>
           \<le> ((1 + eps) ^ (length atomcoords + 2) - 1)
             * (sum_list (map (\<lambda>r. \<bar>r ! 2\<bar>) atomcoords) / real (length atomcoords))
       \<and> shft = map (\<lambda>r. (r ! 0, r ! 1, rnd (r ! 2 - shift))) atomcoords
       \<and> map fst (zip atoms shft) = atoms
       \<and> \<bar>sum_list (map (\<lambda>(x, y, z). z) shft) / real (length shft)\<bar>
           \<le> 2 * ((1 + eps) ^ (length atomcoords + 3) - 1)
             * (sum_list (map (\<lambda>r. \<bar>r ! 2\<bar>) atomcoords) / real (length atomcoords))"
proof -
  let ?zs = "map (\<lambda>r. r ! 2) atomcoords"
  let ?shift = "rnd (np_sum rnd ?zs / real (length atomcoords))"
  let ?shft = "map (\<lambda>r. (r ! 0, r ! 1, rnd (r ! 2 - ?shift))) atomcoords"
  have z: "?zs \<noteq> []" using assms(1) by simp
  have l: "length ?zs = length atomcoords" by simp
  have a: "map abs ?zs = map (\<lambda>r. \<bar>r ! 2\<bar>) atomcoords" by simp
  have s: "map (\<lambda>(x, y, z). z) ?shft = map (\<lambda>z. rnd (z - ?shift)) ?zs" by simp
  have 1: "shift_structure rnd atomcoords = Inr (?shift, ?shft)"
    by (simp add: shift_structure_def mean_last_column_ok [OF assms(1,2)]
        shift_rows_ok [OF assms(2)])
  have 2: "map fst (zip atoms ?shft) = atoms"
    using assms(3) by (simp add: map_fst_zip)
  have 3: "\<bar>?shift - sum_list ?zs / real (length atomcoords)\<bar>
           \<le> ((1 + eps) ^ (length atomcoords + 2) - 1)
             * (sum_list (map (\<lambda>r. \<bar>r ! 2\<bar>) atomcoords) / real (length atomcoords))"
    using shifted_sum_bound(1) [OF assms(4) z] unfolding l a .
  have 4: "\<bar>sum_list (map (\<lambda>(x, y, z). z) ?shft) / real (length ?shft)\<bar>
           \<le> 2 * ((1 + eps) ^ (length atomcoords + 3) - 1)
             * (sum_list (map (\<lambda>r. \<bar>r ! 2\<bar>) atomcoords) / real (length atomcoords))"
    using shifted_sum_bound(2) [OF assms(4) z] unfolding s l a length_map .
  from 1 2 3 4 show ?thesis by blast
qed

theorem shift_structure_mean_witness:
  "rel_error id 0
   \<and> shift_structure id [[0, 0, 1], [3 / 2, 0, 2], [0, 3 / 2, 3]]
        = Inr (2, [(0, 0, - 1), (3 / 2, 0, 0), (0, 3 / 2, 1)])
   \<and> map fst (zip [''Cu'', ''Ag'', ''Au''] [(0, 0, - 1), (3 / 2, 0, 0), (0, 3 / 2, 1 :: real)])
        = [''Cu'', ''Ag'', ''Au'']
   \<and> \<bar>2 - (1 + 2 + 3) / 3\<bar> \<le> ((1 + 0) ^ 5 - 1) * ((1 + 2 + 3) / (3 :: real))
   \<and> \<bar>(- 1 + 0 + 1) / 3\<bar> \<le> 2 * ((1 + 0) ^ 6 - 1) * ((1 + 2 + 3) / (3 :: real))
   \<and> rel_error round_f64 (1 / 2 ^ 53)
   \<and> shift_structure round_f64 [[0, 0, round_f64 (1 / 10)], [0, 0, round_f64 (2 / 10)]]
        = Inr (1351079888211149 / 9007199254740992,
               [(0, 0, - (1801439850948199 / 36028797018963968)),
                (0, 0, 900719925474099 / 18014398509481984)])
   \<and> \<bar>(- (1801439850948199 / 36028797018963968) + 900719925474099 / 18014398509481984) / 2\<bar>
        \<le> 2 * ((1 + 1 / 2 ^ 53) ^ 5 - 1)
          * ((3602879701896397 / 36028797018963968 + 3602879701896397 / 18014398509481984)
             / (2 :: real))"
proof -
  let ?A = "[[0, 0, round_f64 (1 / 10)], [0, 0, round_f64 (2 / 10)]]"
  let ?B = "[[0, 0, 1], [3 / 2, 0, 2], [0, 3 / 2, 3 :: real]]"
  have e: "shift_structure round_f64 ?A
        = Inr (1351079888211149 / 9007199254740992,
               [(0, 0, - (1801439850948199 / 36028797018963968)),
                (0, 0, 900719925474099 / 18014398509481984)])"
    by (simp add: shift_structure_def mean_last_column_def np_sum_def pairwise_sum_small
        seq_sum_def f64_eval)
  have t: "round_f64 (1 / 10) = 3602879701896397 / 36028797018963968"
    "round_f64 (2 / 10) = 3602879701896397 / 18014398509481984"
    by (simp_all add: f64_eval)
  have i: "shift_structure id ?B = Inr (2, [(0, 0, - 1), (3 / 2, 0, 0), (0, 3 / 2, 1)])"
    by (simp add: shift_structure_def mean_last_column_def np_sum_def pairwise_sum_small
        seq_sum_def)
  have p: "?A \<noteq> []" "\<forall>r \<in> set ?A. length r = 3" "length [''H'', ''He''] = length ?A"
    by simp_all
  have q: "?B \<noteq> []" "\<forall>r \<in> set ?B. length r = 3" "length [''Cu'', ''Ag'', ''Au''] = length ?B"
    by simp_all
  from shift_structure_mean [OF p rel_error_round_f64]
  obtain shift shft where o: "shift_structure round_f64 ?A = Inr (shift, shft)"
    and b: "\<bar>sum_list (map (\<lambda>(x, y, z). z) shft) / real (length shft)\<bar>
           \<le> 2 * ((1 + 1 / 2 ^ 53) ^ (length ?A + 3) - 1)
             * (sum_list (map (\<lambda>r. \<bar>r ! 2\<bar>) ?A) / real (length ?A))"
    by blast
  from o have "shft = [(0, 0, - (1801439850948199 / 36028797018963968)),
                (0, 0, 900719925474099 / 18014398509481984)]"
    unfolding e by simp
  from b [unfolded this t]
  have b': "\<bar>(- (1801439850948199 / 36028797018963968)
              + 900719925474099 / 18014398509481984) / 2\<bar>
        \<le> 2 * ((1 + 1 / 2 ^ 53) ^ 5 - 1)
          * ((3602879701896397 / 36028797018963968 + 3602879701896397 / 18014398509481984)
             / (2 :: real))"
    by simp
  from shift_structure_mean [OF q rel_error_id]
  obtain shift' shft' where o': "shift_structure id ?B = Inr (shift', shft')"
    and c: "\<bar>shift' - sum_list (map (\<lambda>r. r ! 2) ?B) / real (length ?B)\<bar>
           \<le> ((1 + 0) ^ (length ?B + 2) - 1)
             * (sum_list (map (\<lambda>r. \<bar>r ! 2\<bar>) ?B) / real (length ?B))"
    and d: "\<bar>sum_list (map (\<lambda>(x, y, z). z) shft') / real (length shft')\<bar>
           \<le> 2 * ((1 + 0) ^ (length ?B + 3) - 1)
             * (sum_list (map (\<lambda>r. \<bar>r ! 2\<bar>) ?B) / real (length ?B))"
    by blast
  from o' have v: "shift' = 2" "shft' = [(0, 0, - 1), (3 / 2, 0, 0), (0, 3 / 2, 1)]"
    unfolding i by simp_all
  from c [unfolded v] d [unfolded v]
  have c': "\<bar>2 - (1 + 2 + 3) / 3\<bar> \<le> ((1 + 0) ^ 5 - 1) * ((1 + 2 + 3) / (3 :: real))"
    "\<bar>(- 1 + 0 + 1) / 3\<bar> \<le> 2 * ((1 + 0) ^ 6 - 1) * ((1 + 2 + 3) / (3 :: real))"
    by simp_all
  have z: "map fst (zip [''Cu'', ''Ag'', ''Au''] [(0, 0, - 1), (3 / 2, 0, 0), (0, 3 / 2, 1 :: real)])
        = [''Cu'', ''Ag'', ''Au'']"
    by simp
  from e i b' c' z rel_error_id rel_error_round_f64 show ?thesis by blast
qed

section \<open>The list of distances (C2)\<close>

text \<open>
  C2 (as amended): in exact arithmetic and for a positive step, the list of distances
  is \<open>dmin + i * dstep\<close> for \<open>i = 0, 1, \<dots>\<close>, it holds exactly the values of that
  progression below \<open>dmax + dstep\<close>, and its length is
  \<open>max 0 (\<lceil>(dmax - dmin) / dstep\<rceil> + 1)\<close>, which is \<open>\<lceil>(dmax - dmin) / dstep\<rceil> + 1\<close>
  when \<open>dmin < dmax + 2 * dstep\<close> (so whenever \<open>dmin \<le> dmax\<close>).
\<close>

theorem zvalues_exact:
  assumes "0 < dstep"
  shows "\<exists>zs. zvalues id dmin dmax dstep = Inr zs
       \<and> zs = map (\<lambda>i. dmin + real i * dstep) [0..<length zs]
       \<and> (\<forall>i. (dmin + real i * dstep < dmax + dstep) = (i < length zs))
       \<and> int (length zs) = max 0 (\<lceil>(dmax - dmin) / dstep\<rceil> + 1)
       \<and> (dmin < dmax + 2 * dstep \<longrightarrow>
            int (length zs) = \<lceil>(dmax - dmin) / dstep\<rceil> + 1)"
proof -
  let ?n = "nat (\<lceil>(dmax - dmin) / dstep\<rceil> + 1)"
  let ?zs = "map (\<lambda>i. dmin + real i * dstep) [0..<?n]"
  have len: "length ?zs = ?n" by simp
  have 1: "zvalues id dmin dmax dstep = Inr ?zs"
    using assms by (rule zvalues_exact_eq)
  have 2: "?zs = map (\<lambda>i. dmin + real i * dstep) [0..<length ?zs]"
    by (simp only: len)
  have 3: "(dmin + real i * dstep < dmax + dstep) = (i < length ?zs)" for i
  proof -
    have "(dmin + real i * dstep < dmax + dstep) = (real i < (dmax - dmin) / dstep + 1)"
      using assms by (simp add: field_simps)
    then show ?thesis by (simp only: len ceiling_steps)
  qed
  have 4: "int (length ?zs) = max 0 (\<lceil>(dmax - dmin) / dstep\<rceil> + 1)"
    unfolding len by linarith
  have 5: "int (length ?zs) = \<lceil>(dmax - dmin) / dstep\<rceil> + 1"
    if "dmin < dmax + 2 * dstep"
  proof -
    from that have "- 2 < (dmax - dmin) / dstep"
      using assms by (simp add: field_simps)
    then have "0 \<le> \<lceil>(dmax - dmin) / dstep\<rceil> + 1"
      by linarith
    then show ?thesis unfolding len by (rule nat_0_le)
  qed
  from 1 2 3 4 5 show ?thesis by blast
qed

theorem zvalues_exact_witness:
  "(0::real) < 1 \<and> (2::real) < 4 + 2 * 1
   \<and> zvalues id 2 4 1 = Inr [2, 3, 4]
   \<and> int (length [2, 3, 4 :: real]) = \<lceil>((4::real) - 2) / 1\<rceil> + 1"
proof -
  obtain zs where zs: "zvalues id 2 4 1 = Inr zs"
      "zs = map (\<lambda>i. 2 + real i * 1) [0..<length zs]"
      "int (length zs) = max 0 (\<lceil>((4::real) - 2) / 1\<rceil> + 1)"
    using zvalues_exact [of 1 2 4] by auto
  from zs(3) have "length zs = 3" by simp
  with zs(2) have "zs = [2, 3, 4]" by (simp add: upt_conv_Cons)
  with zs(1) show ?thesis by simp
qed

text \<open>
  C2 (as stated) fails: from 5 down to 1 with step 1 the list is empty, and its length
  0 is not \<open>\<lceil>(1 - 5) / 1\<rceil> + 1 = -3\<close>.
\<close>

theorem zvalues_length_counterexample:
  "zvalues id 5 1 1 = Inr []
   \<and> int (length ([] :: real list)) \<noteq> \<lceil>((1::real) - 5) / 1\<rceil> + 1"
  by (simp add: zvalues_def arange_def)

section \<open>The lines of an output file (C3)\<close>

text \<open>
  C3: when the input file has at least as many coordinate lines as it declares, every
  file of a run that ends without an exception is made of \<open>natoms + 3\<close> written lines: the
  count line, which says \<open>natoms + 1\<close>, the comment line, the line of the added atom, and
  one line for each of the \<open>natoms\<close> atoms of the surface, in the order of the input file:
  line \<open>3 + j\<close> of the file is made from coordinate line \<open>j\<close> of the input, with its
  symbol (the first token), its x and y (the next two tokens) and its z (the fourth token)
  less the shift.
\<close>

theorem main_atom_lines:
  assumes "main rnd a w = (None, w')"
    and "open_read w (inpxyz a) = Inr content"
    and "read_header (map strip (readlines content)) = Inr (natoms, rest)"
    and "natoms \<le> int (length rest)"
  shows "\<exists>zs atoms atomcoords shift shft.
      zvalues rnd (d_min a) (d_max a) (d_step a) = Inr zs
    \<and> read_atoms rnd natoms 0 rest = Inr (atoms, atomcoords)
    \<and> shift_structure rnd atomcoords = Inr (shift, shft)
    \<and> shift = rnd (np_sum rnd (map (\<lambda>r. r ! 2) atomcoords) / real (length atomcoords))
    \<and> int (length atoms) = natoms \<and> length atomcoords = length atoms
    \<and> atoms = map (\<lambda>l. hd (split_ws l)) (take (nat natoms) rest)
    \<and> (\<forall>i < length zs. \<exists>ls.
          files w' (newfile_name (outname a) i) = Some (concat ls)
        \<and> length ls = nat natoms + 3
        \<and> ls ! 0 = fmt_4d (natoms + 1) @ [LF]
        \<and> ls ! 1 = ''Atom-surface distance: '' @ fmt_8f (zs ! i) @ [LF]
        \<and> ls ! 2 = atom_line (atom_symb a) (xcoord a) (ycoord a) (zs ! i)
        \<and> (\<forall>j < nat natoms. \<exists>symbol tokens x y z.
              split_ws (rest ! j) = symbol # tokens
            \<and> floats rnd (take 3 tokens) = Inr [x, y, z]
            \<and> ls ! (3 + j) = atom_line symbol x y (rnd (z - shift))))"
proof -
  from assms(1-3) obtain zs atoms atomcoords shift shft where
    z: "zvalues rnd (d_min a) (d_max a) (d_step a) = Inr zs"
    and r: "read_atoms rnd natoms 0 rest = Inr (atoms, atomcoords)"
    and s: "shift_structure rnd atomcoords = Inr (shift, shft)"
    and l: "write_loop a natoms atoms shft (enumerate zs) w = (None, w')"
    by (rule main_parsed)
  note rows = shift_structure_rows [OF s]
  from read_atoms_length [OF r] assms(4)
  have la: "length atoms = nat natoms" and lc: "length atomcoords = length atoms"
    by auto
  from rows(3) have "0 < length atomcoords" by simp
  with la lc have pos: "0 < natoms" by linarith
  with la have 1: "int (length atoms) = natoms" by simp
  from read_atoms_symbols [OF r]
  have 3: "atoms = map (\<lambda>l. hd (split_ws l)) (take (nat natoms) rest)" by simp
  have line: "\<exists>symbol tokens x y z.
              split_ws (rest ! j) = symbol # tokens
            \<and> floats rnd (take 3 tokens) = Inr [x, y, z]
            \<and> map (\<lambda>(atom, (x, y, z)). atom_line atom x y z) (zip atoms shft) ! j
                = atom_line symbol x y (rnd (z - shift))"
    if j: "j < nat natoms" for j
  proof -
    from j la have ja: "j < length atoms" by simp
    from read_atoms_rows [OF r ja] obtain tokens where
      t: "split_ws (rest ! j) = atoms ! j # tokens"
      and f: "floats rnd (take 3 tokens) = Inr (atomcoords ! j)"
      by blast
    from ja lc have jc: "j < length atomcoords" by simp
    with rows(1) have "length (atomcoords ! j) = 3" by simp
    then obtain x y z where c: "atomcoords ! j = [x, y, z]"
      by (auto simp: length_Suc_conv numeral_3_eq_3)
    from ja jc have "map (\<lambda>(atom, (x, y, z)). atom_line atom x y z) (zip atoms shft) ! j
        = atom_line (atoms ! j) x y (rnd (z - shift))"
      unfolding rows(2) by (simp add: c)
    with t f c show ?thesis by auto
  qed
  note ok = write_loop_ok [OF l enumerate_distinct]
  have 5: "\<exists>ls. files w' (newfile_name (outname a) i) = Some (concat ls)
        \<and> length ls = nat natoms + 3
        \<and> ls ! 0 = fmt_4d (natoms + 1) @ [LF]
        \<and> ls ! 1 = ''Atom-surface distance: '' @ fmt_8f (zs ! i) @ [LF]
        \<and> ls ! 2 = atom_line (atom_symb a) (xcoord a) (ycoord a) (zs ! i)
        \<and> (\<forall>j < nat natoms. \<exists>symbol tokens x y z.
              split_ws (rest ! j) = symbol # tokens
            \<and> floats rnd (take 3 tokens) = Inr [x, y, z]
            \<and> ls ! (3 + j) = atom_line symbol x y (rnd (z - shift)))"
    if "i < length zs" for i
  proof -
    let ?ls = "struct_lines natoms (atom_symb a) (xcoord a) (ycoord a) (zs ! i) atoms shft"
    from ok enumerate_set [OF that]
    have "files w' (newfile_name (outname a) i) = Some (concat ?ls)"
      unfolding struct_text_def by blast
    moreover have "length ?ls = nat natoms + 3"
      using la lc rows(2) by (simp add: struct_lines_def)
    moreover have "?ls ! 0 = fmt_4d (natoms + 1) @ [LF]"
      "?ls ! 1 = ''Atom-surface distance: '' @ fmt_8f (zs ! i) @ [LF]"
      "?ls ! 2 = atom_line (atom_symb a) (xcoord a) (ycoord a) (zs ! i)"
      by (simp_all add: struct_lines_def)
    moreover have "?ls ! (3 + j)
        = map (\<lambda>(atom, (x, y, z)). atom_line atom x y z) (zip atoms shft) ! j" for j
      by (simp add: struct_lines_def numeral_3_eq_3)
    with line have "\<forall>j < nat natoms. \<exists>symbol tokens x y z.
              split_ws (rest ! j) = symbol # tokens
            \<and> floats rnd (take 3 tokens) = Inr [x, y, z]
            \<and> ?ls ! (3 + j) = atom_line symbol x y (rnd (z - shift))"
      by simp
    ultimately show ?thesis by blast
  qed
  then have f5: "\<forall>i < length zs. \<exists>ls.
          files w' (newfile_name (outname a) i) = Some (concat ls)
        \<and> length ls = nat natoms + 3
        \<and> ls ! 0 = fmt_4d (natoms + 1) @ [LF]
        \<and> ls ! 1 = ''Atom-surface distance: '' @ fmt_8f (zs ! i) @ [LF]
        \<and> ls ! 2 = atom_line (atom_symb a) (xcoord a) (ycoord a) (zs ! i)
        \<and> (\<forall>j < nat natoms. \<exists>symbol tokens x y z.
              split_ws (rest ! j) = symbol # tokens
            \<and> floats rnd (take 3 tokens) = Inr [x, y, z]
            \<and> ls ! (3 + j) = atom_line symbol x y (rnd (z - shift)))"
    by blast
  show ?thesis
    by (intro exI conjI) (rule z r s rows(4) 1 lc 3 f5)+
qed

theorem main_atom_lines_witness:
  "fst (main round_f64 scenario_args alloy_world) = None
   \<and> open_read alloy_world ''surf.xyz'' = Inr alloy_xyz
   \<and> read_header (map strip (readlines alloy_xyz)) =
       Inr (3, [''Cu 0.0 0.0 1.0'', ''Ag 1.5 0.0 2.0'', ''Au 0.0 1.5 3.0''])
   \<and> (3 :: int) \<le> int (length [''Cu 0.0 0.0 1.0'', ''Ag 1.5 0.0 2.0'', ''Au 0.0 1.5 3.0''])
   \<and> files (snd (main round_f64 scenario_args alloy_world)) ''out_0001.xyz''
       = Some (concat
           [''   4'' @ [LF],
            ''Atom-surface distance: 3.00000000'' @ [LF],
            ''H      0.00000000    0.00000000    3.00000000'' @ [LF],
            ''Cu     0.00000000    0.00000000   -1.00000000'' @ [LF],
            ''Ag     1.50000000    0.00000000    0.00000000'' @ [LF],
            ''Au     0.00000000    1.50000000    1.00000000'' @ [LF]])"
proof -
  let ?rest = "[''Cu 0.0 0.0 1.0'', ''Ag 1.5 0.0 2.0'', ''Au 0.0 1.5 3.0'']"
  have le: "(3 :: int) \<le> int (length ?rest)"
    by simp
  from main_atom_lines [OF alloy_run alloy_open alloy_header le]
  obtain zs atoms atomcoords shift shft where
    z: "zvalues round_f64 (d_min scenario_args) (d_max scenario_args) (d_step scenario_args) = Inr zs"
    and r: "read_atoms round_f64 3 0 ?rest = Inr (atoms, atomcoords)"
    and s: "shift_structure round_f64 atomcoords = Inr (shift, shft)"
    and f: "\<forall>i < length zs. \<exists>ls.
          files (snd (main round_f64 scenario_args alloy_world))
            (newfile_name (outname scenario_args) i) = Some (concat ls)
        \<and> length ls = nat 3 + 3
        \<and> ls ! 0 = fmt_4d (3 + 1) @ [LF]
        \<and> ls ! 1 = ''Atom-surface distance: '' @ fmt_8f (zs ! i) @ [LF]
        \<and> ls ! 2 = atom_line (atom_symb scenario_args) (xcoord scenario_args)
                      (ycoord scenario_args) (zs ! i)
        \<and> (\<forall>j < nat 3. \<exists>symbol tokens x y z.
              split_ws (?rest ! j) = symbol # tokens
            \<and> floats round_f64 (take 3 tokens) = Inr [x, y, z]
            \<and> ls ! (3 + j) = atom_line symbol x y (round_f64 (z - shift)))"
    by blast
  from z have zs: "zs = [2, 3, 4]" by (simp add: scenario_args_sel scenario_zvalues)
  from r have "atomcoords = [[0, 0, 1], [3 / 2, 0, 2], [0, 3 / 2, 3]]"
    unfolding alloy_atoms by simp
  with s have shift: "shift = 2" by (simp add: scenario_shift)
  have "1 < length zs" unfolding zs by simp
  from f [rule_format, OF this] obtain ls where
    fl: "files (snd (main round_f64 scenario_args alloy_world))
            (newfile_name (outname scenario_args) 1) = Some (concat ls)"
    and len: "length ls = nat 3 + 3"
    and l0: "ls ! 0 = fmt_4d (3 + 1) @ [LF]"
    and l1: "ls ! 1 = ''Atom-surface distance: '' @ fmt_8f (zs ! 1) @ [LF]"
    and l2: "ls ! 2 = atom_line (atom_symb scenario_args) (xcoord scenario_args)
                      (ycoord scenario_args) (zs ! 1)"
    and rows: "\<forall>j < nat 3. \<exists>symbol tokens x y z.
              split_ws (?rest ! j) = symbol # tokens
            \<and> floats round_f64 (take 3 tokens) = Inr [x, y, z]
            \<and> ls ! (3 + j) = atom_line symbol x y (round_f64 (z - shift))"
    by blast
  have r1: "round_f64 (- 1) = - 1" "round_f64 0 = 0" "round_f64 1 = 1"
    by (simp_all add: f64_eval)
  have j: "0 < nat 3" "1 < nat 3" "2 < nat 3" by simp_all
  from rows [rule_format, OF j(1)] obtain s0 t0 x0 y0 z0 where
    "split_ws (?rest ! 0) = s0 # t0" "floats round_f64 (take 3 t0) = Inr [x0, y0, z0]"
    and c0: "ls ! (3 + 0) = atom_line s0 x0 y0 (round_f64 (z0 - shift))"
    by blast
  from row_line [OF this(1,2) _ alloy_tokens(4)]
  have v0: "s0 = ''Cu''" "x0 = 0" "y0 = 0" "z0 = 1"
    by (simp_all add: alloy_tokens(1))
  from c0 have l3: "ls ! 3 = ''Cu     0.00000000    0.00000000   -1.00000000'' @ [LF]"
    unfolding v0 shift by (simp add: r1 alloy_lines)
  from rows [rule_format, OF j(2)] obtain s1 t1 x1 y1 z1 where
    "split_ws (?rest ! 1) = s1 # t1" "floats round_f64 (take 3 t1) = Inr [x1, y1, z1]"
    and c1: "ls ! (3 + 1) = atom_line s1 x1 y1 (round_f64 (z1 - shift))"
    by blast
  from row_line [OF this(1,2) _ alloy_tokens(5)]
  have v1: "s1 = ''Ag''" "x1 = 3 / 2" "y1 = 0" "z1 = 2"
    by (simp_all add: alloy_tokens(2))
  from c1 have l4: "ls ! 4 = ''Ag     1.50000000    0.00000000    0.00000000'' @ [LF]"
    unfolding v1 shift by (simp add: r1 alloy_lines)
  from rows [rule_format, OF j(3)] obtain s2 t2 x2 y2 z2 where
    "split_ws (?rest ! 2) = s2 # t2" "floats round_f64 (take 3 t2) = Inr [x2, y2, z2]"
    and c2: "ls ! (3 + 2) = atom_line s2 x2 y2 (round_f64 (z2 - shift))"
    by blast
  from row_line [OF this(1,2) _ alloy_tokens(6)]
  have v2: "s2 = ''Au''" "x2 = 0" "y2 = 3 / 2" "z2 = 3"
    by (simp_all add: alloy_tokens(3))
  from c2 have l5: "ls ! 5 = ''Au     0.00000000    1.50000000    1.00000000'' @ [LF]"
    unfolding v2 shift by (simp add: r1 alloy_lines)
  from len have "length ls = 6" by simp
  from list_6 [OF this]
  have ls: "ls = [''   4'' @ [LF],
            ''Atom-surface distance: 3.00000000'' @ [LF],
            ''H      0.00000000    0.00000000    3.00000000'' @ [LF],
            ''Cu     0.00000000    0.00000000   -1.00000000'' @ [LF],
            ''Ag     1.50000000    0.00000000    0.00000000'' @ [LF],
            ''Au     0.00000000    1.50000000    1.00000000'' @ [LF]]"
    unfolding l0 l1 l2 l3 l4 l5 zs
    by (simp add: scenario_args_sel scenario_lines probe_lines)
  have name: "newfile_name (outname scenario_args) 1 = ''out_0001.xyz''"
    using name_1_2 (2) [of "''out''"] by (simp add: scenario_args_sel)
  from fl have ex: "files (snd (main round_f64 scenario_args alloy_world)) ''out_0001.xyz''
       = Some (concat
           [''   4'' @ [LF],
            ''Atom-surface distance: 3.00000000'' @ [LF],
            ''H      0.00000000    0.00000000    3.00000000'' @ [LF],
            ''Cu     0.00000000    0.00000000   -1.00000000'' @ [LF],
            ''Ag     1.50000000    0.00000000    0.00000000'' @ [LF],
            ''Au     0.00000000    1.50000000    1.00000000'' @ [LF]])"
    unfolding name using ls by simp
  have "open_read alloy_world ''surf.xyz'' = Inr alloy_xyz"
    using alloy_open by (simp add: scenario_args_sel)
  with alloy_fst alloy_header le ex show ?thesis
    by (intro conjI)
qed

section \<open>The scenario of three atoms (C4)\<close>

text \<open>
  C4: three atoms at the heights 1, 2 and 3, whatever their symbols and their x and y,
  and the distances from 2 to 4 by 1 with H at x = 0, y = 0: when no call of the
  operating system fails, the run ends without an exception and writes three files,
  numbered 0000, 0001 and 0002, with H at the heights 2, 3 and 4 and the surface at the
  heights -1, 0 and 1 in each; no other file changes, apart from backups.
\<close>

theorem scenario_three_files:
  assumes "fault w = (\<lambda>c. None)"
    and "open_read w (inpxyz a) = Inr content"
    and "read_structure round_f64 (map strip (readlines content))
           = Inr (3, [s1, s2, s3], [[x1, y1, 1], [x2, y2, 2], [x3, y3, 3]])"
    and "d_min a = 2" and "d_max a = 4" and "d_step a = 1"
    and "atom_symb a = ''H''" and "xcoord a = 0" and "ycoord a = 0"
  shows "\<exists>w'. main round_f64 a w = (None, w')
    \<and> zvalues round_f64 (d_min a) (d_max a) (d_step a) = Inr [2, 3, 4]
    \<and> files w' (outname a @ ''_0000.xyz'') =
        Some (concat [''   4'' @ [LF], ''Atom-surface distance: 2.00000000'' @ [LF],
                ''H      0.00000000    0.00000000    2.00000000'' @ [LF],
                atom_line s1 x1 y1 (- 1), atom_line s2 x2 y2 0, atom_line s3 x3 y3 1])
    \<and> files w' (outname a @ ''_0001.xyz'') =
        Some (concat [''   4'' @ [LF], ''Atom-surface distance: 3.00000000'' @ [LF],
                ''H      0.00000000    0.00000000    3.00000000'' @ [LF],
                atom_line s1 x1 y1 (- 1), atom_line s2 x2 y2 0, atom_line s3 x3 y3 1])
    \<and> files w' (outname a @ ''_0002.xyz'') =
        Some (concat [''   4'' @ [LF], ''Atom-surface distance: 4.00000000'' @ [LF],
                ''H      0.00000000    0.00000000    4.00000000'' @ [LF],
                atom_line s1 x1 y1 (- 1), atom_line s2 x2 y2 0, atom_line s3 x3 y3 1])
    \<and> (\<forall>p. p \<notin> {outname a @ ''_0000.xyz'', outname a @ ''_0001.xyz'', outname a @ ''_0002.xyz'',
                 outname a @ ''_0000.xyz.BAK'', outname a @ ''_0001.xyz.BAK'',
                 outname a @ ''_0002.xyz.BAK''} \<longrightarrow> files w' p = files w p)"
proof -
  let ?atoms = "[s1, s2, s3]"
  let ?shft = "[(x1, y1, - 1), (x2, y2, 0), (x3, y3, 1 :: real)]"
  have z: "zvalues round_f64 (d_min a) (d_max a) (d_step a) = Inr [2, 3, 4]"
    using assms(4-6) by (simp add: scenario_zvalues)
  from write_loop_no_fault [OF assms(1)] obtain w' where
    l: "write_loop a 3 ?atoms ?shft (enumerate [2, 3, 4]) w = (None, w')"
    by blast
  have m: "main round_f64 a w = (None, w')"
    using l by (simp add: main_def z assms(2,3) scenario_shift)
  note ok = write_loop_ok [OF l enumerate_distinct]
  have t: "struct_text a 3 ?atoms ?shft h =
      concat [''   4'' @ [LF], ''Atom-surface distance: '' @ fmt_8f h @ [LF],
              atom_line ''H'' 0 0 h,
              atom_line s1 x1 y1 (- 1), atom_line s2 x2 y2 0, atom_line s3 x3 y3 1]" for h
    by (simp add: struct_text_def struct_lines_def assms(7-9) scenario_lines)
  have names: "newfile_name (outname a) 1 = outname a @ ''_0001.xyz''"
    "newfile_name (outname a) 2 = outname a @ ''_0002.xyz''"
    using name_1_2 [of "outname a"] by (simp_all add: numeral_2_eq_2)
  have f0: "files w' (outname a @ ''_0000.xyz'') = Some (struct_text a 3 ?atoms ?shft 2)"
    and f1: "files w' (outname a @ ''_0001.xyz'') = Some (struct_text a 3 ?atoms ?shft 3)"
    and f2: "files w' (outname a @ ''_0002.xyz'') = Some (struct_text a 3 ?atoms ?shft 4)"
    using ok by (simp_all add: enumerate_3 name_1_2 names)
  have fr: "files w' p = files w p"
    if "p \<notin> {outname a @ ''_0000.xyz'', outname a @ ''_0001.xyz'', outname a @ ''_0002.xyz'',
                 outname a @ ''_0000.xyz.BAK'', outname a @ ''_0001.xyz.BAK'',
                 outname a @ ''_0002.xyz.BAK''}" for p
    using ok that by (simp add: enumerate_3 name_1_2 names)
  from m z f0 f1 f2 fr show ?thesis
    by (simp add: t scenario_lines probe_lines)
qed

theorem scenario_three_files_witness:
  "fault scenario_world = (\<lambda>c. None)
   \<and> open_read scenario_world ''surf.xyz'' = Inr scenario_xyz
   \<and> read_structure round_f64 (map strip (readlines scenario_xyz))
        = Inr (3, [''Cu'', ''Cu'', ''Cu''], [[0, 0, 1], [3 / 2, 0, 2], [0, 3 / 2, 3]])
   \<and> fst (main round_f64 scenario_args scenario_world) = None
   \<and> files (snd (main round_f64 scenario_args scenario_world)) ''out_0000.xyz'' =
       Some (''   4'' @ [LF] @ ''Atom-surface distance: 2.00000000'' @ [LF]
          @ ''H      0.00000000    0.00000000    2.00000000'' @ [LF]
          @ ''Cu     0.00000000    0.00000000   -1.00000000'' @ [LF]
          @ ''Cu     1.50000000    0.00000000    0.00000000'' @ [LF]
          @ ''Cu     0.00000000    1.50000000    1.00000000'' @ [LF])
   \<and> files (snd (main round_f64 scenario_args scenario_world)) ''out_0001.xyz'' =
       Some (''   4'' @ [LF] @ ''Atom-surface distance: 3.00000000'' @ [LF]
          @ ''H      0.00000000    0.00000000    3.00000000'' @ [LF]
          @ ''Cu     0.00000000    0.00000000   -1.00000000'' @ [LF]
          @ ''Cu     1.50000000    0.00000000    0.00000000'' @ [LF]
          @ ''Cu     0.00000000    1.50000000    1.00000000'' @ [LF])
   \<and> files (snd (main round_f64 scenario_args scenario_world)) ''out_0002.xyz'' =
       Some (''   4'' @ [LF] @ ''Atom-surface distance: 4.00000000'' @ [LF]
          @ ''H      0.00000000    0.00000000    4.00000000'' @ [LF]
          @ ''Cu     0.00000000    0.00000000   -1.00000000'' @ [LF]
          @ ''Cu     1.50000000    0.00000000    0.00000000'' @ [LF]
          @ ''Cu     0.00000000    1.50000000    1.00000000'' @ [LF])
   \<and> files (snd (main round_f64 scenario_args scenario_world)) ''out_0003.xyz'' = None"
proof -
  have f: "fault scenario_world = (\<lambda>c. None)"
    and o: "open_read scenario_world (inpxyz scenario_args) = Inr scenario_xyz"
    by (simp_all add: scenario_world_def scenario_args_sel open_read_def)
  have n: "files scenario_world ''out_0003.xyz'' = None"
    by (simp add: scenario_world_def)
  have lines: "atom_line ''Cu'' 0 0 (- 1) = ''Cu     0.00000000    0.00000000   -1.00000000'' @ [LF]"
    "atom_line ''Cu'' (3 / 2) 0 0 = ''Cu     1.50000000    0.00000000    0.00000000'' @ [LF]"
    "atom_line ''Cu'' 0 (3 / 2) 1 = ''Cu     0.00000000    1.50000000    1.00000000'' @ [LF]"
    by (simp_all add: atom_line_def scenario_lines)
  from scenario_three_files [OF f o scenario_read scenario_args_sel(3-8)]
  obtain w' where m: "main round_f64 scenario_args scenario_world = (None, w')"
    and f0: "files w' (outname scenario_args @ ''_0000.xyz'') =
        Some (concat [''   4'' @ [LF], ''Atom-surface distance: 2.00000000'' @ [LF],
                ''H      0.00000000    0.00000000    2.00000000'' @ [LF],
                atom_line ''Cu'' 0 0 (- 1), atom_line ''Cu'' (3 / 2) 0 0,
                atom_line ''Cu'' 0 (3 / 2) 1])"
    and f1: "files w' (outname scenario_args @ ''_0001.xyz'') =
        Some (concat [''   4'' @ [LF], ''Atom-surface distance: 3.00000000'' @ [LF],
                ''H      0.00000000    0.00000000    3.00000000'' @ [LF],
                atom_line ''Cu'' 0 0 (- 1), atom_line ''Cu'' (3 / 2) 0 0,
                atom_line ''Cu'' 0 (3 / 2) 1])"
    and f2: "files w' (outname scenario_args @ ''_0002.xyz'') =
        Some (concat [''   4'' @ [LF], ''Atom-surface distance: 4.00000000'' @ [LF],
                ''H      0.00000000    0.00000000    4.00000000'' @ [LF],
                atom_line ''Cu'' 0 0 (- 1), atom_line ''Cu'' (3 / 2) 0 0,
                atom_line ''Cu'' 0 (3 / 2) 1])"
    and fr: "\<forall>p. p \<notin> {outname scenario_args @ ''_0000.xyz'',
                 outname scenario_args @ ''_0001.xyz'', outname scenario_args @ ''_0002.xyz'',
                 outname scenario_args @ ''_0000.xyz.BAK'',
                 outname scenario_args @ ''_0001.xyz.BAK'',
                 outname scenario_args @ ''_0002.xyz.BAK''} \<longrightarrow>
               files w' p = files scenario_world p"
    by blast
  from fr have "files w' ''out_0003.xyz'' = files scenario_world ''out_0003.xyz''"
    by (simp add: scenario_args_sel)
  with n have f3: "files w' ''out_0003.xyz'' = None" by simp
  from f0 f1 f2 have "files w' ''out_0000.xyz'' =
       Some (''   4'' @ [LF] @ ''Atom-surface distance: 2.00000000'' @ [LF]
          @ ''H      0.00000000    0.00000000    2.00000000'' @ [LF]
          @ ''Cu     0.00000000    0.00000000   -1.00000000'' @ [LF]
          @ ''Cu     1.50000000    0.00000000    0.00000000'' @ [LF]
          @ ''Cu     0.00000000    1.50000000    1.00000000'' @ [LF])"
    "files w' ''out_0001.xyz'' =
       Some (''   4'' @ [LF] @ ''Atom-surface distance: 3.00000000'' @ [LF]
          @ ''H      0.00000000    0.00000000    3.00000000'' @ [LF]
          @ ''Cu     0.00000000    0.00000000   -1.00000000'' @ [LF]
          @ ''Cu     1.50000000    0.00000000    0.00000000'' @ [LF]
          @ ''Cu     0.00000000    1.50000000    1.00000000'' @ [LF])"
    "files w' ''out_0002.xyz'' =
       Some (''   4'' @ [LF] @ ''Atom-surface distance: 4.00000000'' @ [LF]
          @ ''H      0.00000000    0.00000000    4.00000000'' @ [LF]
          @ ''Cu     0.00000000    0.00000000   -1.00000000'' @ [LF]
          @ ''Cu     1.50000000    0.00000000    0.00000000'' @ [LF]
          @ ''Cu     0.00000000    1.50000000    1.00000000'' @ [LF])"
    by (simp_all add: scenario_args_sel lines)
  with m f3 f o show ?thesis
    by (simp add: scenario_args_sel scenario_read)
qed

section \<open>Missing coordinate lines (C5)\<close>

text \<open>
  C5 does not hold of the program: the loop over the coordinate lines ends with the
  lines, and nothing compares the number of atoms read with the declared number.  For
  every input whose header declares more atoms than there are lines after it, each line
  with a symbol and numbers that \<^verbatim>\<open>float\<close> reads, the parser returns without an error, with
  as many atoms as there are lines, fewer than declared.
\<close>

theorem read_structure_short_file:
  assumes "read_header ls = Inr (natoms, rest)"
    and "int (length rest) < natoms"
    and "\<forall>l \<in> set rest. \<exists>symbol tokens row.
           split_ws l = symbol # tokens \<and> floats rnd (take 3 tokens) = Inr row"
  shows "\<exists>atoms atomcoords. read_structure rnd ls = Inr (natoms, atoms, atomcoords)
       \<and> length atoms = length rest \<and> length atomcoords = length rest
       \<and> int (length atoms) < natoms"
proof -
  from read_atoms_total [OF assms(3)] obtain atoms atomcoords where
    r: "read_atoms rnd natoms 0 rest = Inr (atoms, atomcoords)"
    by blast
  from read_atoms_length [OF r] assms(2)
  have "length atoms = length rest" "length atomcoords = length rest"
    by auto
  moreover from r assms(1)
  have "read_structure rnd ls = Inr (natoms, atoms, atomcoords)"
    by (simp add: read_structure_def)
  ultimately show ?thesis using assms(2) by auto
qed

text \<open>
  The file \<open>short_xyz\<close> declares three atoms and has one coordinate line: the parser
  returns that one atom, the run ends without an exception, and the file it writes says
  4 on its first line and holds two atoms.
\<close>

theorem read_structure_short_file_witness:
  "read_header (map strip (readlines short_xyz)) = Inr (3, [''Cu 0.0 0.0 1.0''])
   \<and> int (length [''Cu 0.0 0.0 1.0'']) < 3
   \<and> split_ws ''Cu 0.0 0.0 1.0'' = [''Cu'', ''0.0'', ''0.0'', ''1.0'']
   \<and> floats round_f64 [''0.0'', ''0.0'', ''1.0''] = Inr [0, 0, 1]
   \<and> read_structure round_f64 (map strip (readlines short_xyz)) = Inr (3, [''Cu''], [[0, 0, 1]])
   \<and> fst (main round_f64 short_args short_world) = None
   \<and> files (snd (main round_f64 short_args short_world)) ''out_0000.xyz'' =
       Some (''   4'' @ [LF] @ ''Atom-surface distance: 2.00000000'' @ [LF]
          @ ''H      0.00000000    0.00000000    2.00000000'' @ [LF]
          @ ''Cu     0.00000000    0.00000000    0.00000000'' @ [LF])"
proof -
  have h: "read_header (map strip (readlines short_xyz)) = Inr (3, [''Cu 0.0 0.0 1.0''])"
    by (simp add: short_xyz_def read_header_def parse_eval)
  have n: "int (length [''Cu 0.0 0.0 1.0'']) < 3" by simp
  have t: "split_ws ''Cu 0.0 0.0 1.0'' = [''Cu'', ''0.0'', ''0.0'', ''1.0'']"
    by (rule alloy_tokens(1))
  have f: "floats round_f64 [''0.0'', ''0.0'', ''1.0''] = Inr [0, 0, 1]"
    by (rule alloy_tokens(4))
  have w: "\<forall>l \<in> set [''Cu 0.0 0.0 1.0'']. \<exists>symbol tokens row.
           split_ws l = symbol # tokens \<and> floats round_f64 (take 3 tokens) = Inr row"
    using t f by simp
  from read_structure_short_file [OF h n w] obtain atoms atomcoords where
    "read_structure round_f64 (map strip (readlines short_xyz)) = Inr (3, atoms, atomcoords)"
    "length atoms = length [''Cu 0.0 0.0 1.0'']"
    by blast
  with short_read
  have r: "read_structure round_f64 (map strip (readlines short_xyz)) = Inr (3, [''Cu''], [[0, 0, 1]])"
    by simp
  have m: "fst (main round_f64 short_args short_world) = None"
    "files (snd (main round_f64 short_args short_world)) ''out_0000.xyz'' =
       Some (''   4'' @ [LF] @ ''Atom-surface distance: 2.00000000'' @ [LF]
          @ ''H      0.00000000    0.00000000    2.00000000'' @ [LF]
          @ ''Cu     0.00000000    0.00000000    0.00000000'' @ [LF])"
    by (simp_all add: short_main short_text)
  from h n t f r m show ?thesis by (intro conjI)
qed

section \<open>The backup of an existing file (C6)\<close>

text \<open>
  C6: one turn of the loop.  When the file is there and nothing fails, it is moved to the
  name with \<open>.BAK\<close> added, whatever was there before, the warning is printed and the new file
  is written.  When the renaming fails with \<^verbatim>\<open>FileNotFoundError\<close>, the file is written and
  no warning is printed.  Any other failure of the renaming ends the run at once, with
  nothing written or printed in this turn; a failure of the writing ends the run.
\<close>

theorem backup_before_write:
  fixes a :: args and w :: world and i :: nat and z :: real and natoms :: int
    and atoms :: "string list" and shft :: "(real \<times> real \<times> real) list"
    and rest :: "(nat \<times> real) list"
  defines "nf \<equiv> newfile_name (outname a) i"
    and "writing \<equiv> ''Writing new file for d='' @ fmt_8f z @ '' ... ''"
  defines "finished \<equiv> ''done! (New file: '' @ nf @ '')'' @ [LF]"
    and "warning \<equiv> ''WARNING: File '' @ [CHR 0x22] @ nf @ [CHR 0x22] @ '' moved to ''
                      @ [CHR 0x22] @ nf @ ''.BAK'' @ [CHR 0x22] @ [LF]"
    and "run \<equiv> write_loop a natoms atoms shft ((i, z) # rest) w"
  shows "(\<forall>old. files w nf = Some old \<and> fault w (Rename nf (nf @ ''.BAK'')) = None
              \<and> fault w (OpenWrite nf) = None \<longrightarrow>
            (\<exists>w'. write_struct a natoms atoms shft i z w = (None, w')
               \<and> files w' (nf @ ''.BAK'') = Some old
               \<and> files w' nf = Some (struct_text a natoms atoms shft z)
               \<and> stdout w' = stdout w @ warning @ writing @ finished
               \<and> (\<forall>p. p \<noteq> nf \<and> p \<noteq> nf @ ''.BAK'' \<longrightarrow> files w' p = files w p)))
       \<and> (os_rename w nf (nf @ ''.BAK'') = Inl FileNotFoundError \<and> fault w (OpenWrite nf) = None \<longrightarrow>
            write_struct a natoms atoms shft i z w
              = (None, w\<lparr>files := (files w)(nf \<mapsto> struct_text a natoms atoms shft z),
                        stdout := stdout w @ writing @ finished\<rparr>))
       \<and> (\<forall>e. os_rename w nf (nf @ ''.BAK'') = Inl e \<and> e \<noteq> FileNotFoundError \<longrightarrow>
            run = (Some (OSError e), w))
       \<and> (\<forall>e. fault w (OpenWrite nf) = Some e
              \<and> (os_rename w nf (nf @ ''.BAK'') = Inl FileNotFoundError
                  \<or> (\<exists>w1. os_rename w nf (nf @ ''.BAK'') = Inr w1)) \<longrightarrow>
            fst run = Some (OSError e))"
proof (intro conjI allI impI)
  fix old
  assume h: "files w nf = Some old \<and> fault w (Rename nf (nf @ ''.BAK'')) = None
              \<and> fault w (OpenWrite nf) = None"
  let ?w' = "w\<lparr>files := (files w)(nf := None, nf @ ''.BAK'' \<mapsto> old,
                   nf \<mapsto> struct_text a natoms atoms shft z),
                 stdout := stdout w @ warning @ writing @ finished\<rparr>"
  have "write_struct a natoms atoms shft i z w = (None, ?w')"
    using h unfolding nf_def writing_def finished_def warning_def
    by (simp add: write_struct_def backup_def os_rename_def open_write_def print_def Let_def)
  moreover have "files ?w' (nf @ ''.BAK'') = Some old" "files ?w' nf = Some (struct_text a natoms atoms shft z)"
    "stdout ?w' = stdout w @ warning @ writing @ finished"
    "\<forall>p. p \<noteq> nf \<and> p \<noteq> nf @ ''.BAK'' \<longrightarrow> files ?w' p = files w p"
    by simp_all
  ultimately show "\<exists>w'. write_struct a natoms atoms shft i z w = (None, w')
               \<and> files w' (nf @ ''.BAK'') = Some old
               \<and> files w' nf = Some (struct_text a natoms atoms shft z)
               \<and> stdout w' = stdout w @ warning @ writing @ finished
               \<and> (\<forall>p. p \<noteq> nf \<and> p \<noteq> nf @ ''.BAK'' \<longrightarrow> files w' p = files w p)"
    by blast
next
  assume "os_rename w nf (nf @ ''.BAK'') = Inl FileNotFoundError \<and> fault w (OpenWrite nf) = None"
  then show "write_struct a natoms atoms shft i z w
              = (None, w\<lparr>files := (files w)(nf \<mapsto> struct_text a natoms atoms shft z),
                        stdout := stdout w @ writing @ finished\<rparr>)"
    unfolding nf_def writing_def finished_def
    by (simp add: write_struct_def backup_def open_write_def print_def Let_def)
next
  fix e
  assume "os_rename w nf (nf @ ''.BAK'') = Inl e \<and> e \<noteq> FileNotFoundError"
  then show "run = (Some (OSError e), w)"
    unfolding nf_def run_def
    by (simp add: write_struct_def backup_def Let_def)
next
  fix e
  assume h: "fault w (OpenWrite nf) = Some e
              \<and> (os_rename w nf (nf @ ''.BAK'') = Inl FileNotFoundError
                  \<or> (\<exists>w1. os_rename w nf (nf @ ''.BAK'') = Inr w1))"
  then consider "os_rename w nf (nf @ ''.BAK'') = Inl FileNotFoundError"
    | w1 where "os_rename w nf (nf @ ''.BAK'') = Inr w1"
    by blast
  then show "fst run = Some (OSError e)"
  proof cases
    case 1
    with h show ?thesis
      unfolding nf_def run_def
      by (simp add: write_struct_def backup_def open_write_def print_def Let_def)
  next
    case 2
    then have "fault w1 = fault w"
      by (auto simp: os_rename_def split: option.splits)
    with 2 h show ?thesis
      unfolding nf_def run_def
      by (simp add: write_struct_def backup_def open_write_def print_def Let_def)
  qed
qed


theorem backup_before_write_witness:
  "files second_world ''out_0000.xyz'' = Some ''old run''
   \<and> files second_world ''out_0000.xyz.BAK'' = Some ''older run''
   \<and> files (snd (write_struct scenario_args 3 [''Cu''] [(0, 0, 0)] 0 2 second_world))
         ''out_0000.xyz.BAK'' = Some ''old run''
   \<and> stdout (snd (write_struct scenario_args 3 [''Cu''] [(0, 0, 0)] 0 2 second_world))
       = ''WARNING: File '' @ [CHR 0x22] @ ''out_0000.xyz'' @ [CHR 0x22] @ '' moved to ''
         @ [CHR 0x22] @ ''out_0000.xyz.BAK'' @ [CHR 0x22] @ [LF]
         @ ''Writing new file for d=2.00000000 ... done! (New file: out_0000.xyz)'' @ [LF]
   \<and> os_rename scenario_world ''out_0000.xyz'' ''out_0000.xyz.BAK'' = Inl FileNotFoundError
   \<and> stdout (snd (write_struct scenario_args 3 [''Cu''] [(0, 0, 0)] 0 2 scenario_world))
       = ''Writing new file for d=2.00000000 ... done! (New file: out_0000.xyz)'' @ [LF]
   \<and> os_rename denied_world ''out_0000.xyz'' ''out_0000.xyz.BAK'' = Inl PermissionError
   \<and> write_loop scenario_args 3 [''Cu''] [(0, 0, 0)] [(0, 2), (1, 3)] denied_world
       = (Some (OSError PermissionError), denied_world)
   \<and> fault full_world (OpenWrite ''out_0000.xyz'') = Some OtherOSError
   \<and> fst (write_loop scenario_args 3 [''Cu''] [(0, 0, 0)] [(0, 2), (1, 3)] full_world)
       = Some (OSError OtherOSError)"
proof -
  note t = backup_before_write [where a = scenario_args and i = 0 and z = 2 and natoms = 3
      and atoms = "[''Cu'']" and shft = "[(0, 0, 0)]" and rest = "[(1, 3)]"]
  have n: "newfile_name (outname scenario_args) 0 = ''out_0000.xyz''"
    by (simp add: scenario_args_sel name_1_2)
  have f2: "fmt_8f 2 = ''2.00000000''" by (rule scenario_lines)
  have s: "files second_world ''out_0000.xyz'' = Some ''old run''"
    "files second_world ''out_0000.xyz.BAK'' = Some ''older run''"
    "fault second_world (Rename ''out_0000.xyz'' ''out_0000.xyz.BAK'') = None"
    "fault second_world (OpenWrite ''out_0000.xyz'') = None"
    by (simp_all add: second_world_def)
  from t [where w = second_world, THEN conjunct1, rule_format, of "''old run''"] s
  obtain w' where "write_struct scenario_args 3 [''Cu''] [(0, 0, 0)] 0 2 second_world = (None, w')"
    "files w' ''out_0000.xyz.BAK'' = Some ''old run''"
    "stdout w' = stdout second_world @ (''WARNING: File '' @ [CHR 0x22] @ ''out_0000.xyz''
       @ [CHR 0x22] @ '' moved to '' @ [CHR 0x22] @ ''out_0000.xyz.BAK'' @ [CHR 0x22] @ [LF])
       @ (''Writing new file for d='' @ fmt_8f 2 @ '' ... '')
       @ (''done! (New file: '' @ ''out_0000.xyz'' @ '')'' @ [LF])"
    unfolding n by auto
  then have 1: "files (snd (write_struct scenario_args 3 [''Cu''] [(0, 0, 0)] 0 2 second_world))
         ''out_0000.xyz.BAK'' = Some ''old run''"
    "stdout (snd (write_struct scenario_args 3 [''Cu''] [(0, 0, 0)] 0 2 second_world))
       = ''WARNING: File '' @ [CHR 0x22] @ ''out_0000.xyz'' @ [CHR 0x22] @ '' moved to ''
         @ [CHR 0x22] @ ''out_0000.xyz.BAK'' @ [CHR 0x22] @ [LF]
         @ ''Writing new file for d=2.00000000 ... done! (New file: out_0000.xyz)'' @ [LF]"
    by (simp_all add: f2 second_world_def)
  have r2: "os_rename scenario_world ''out_0000.xyz'' ''out_0000.xyz.BAK'' = Inl FileNotFoundError"
    "fault scenario_world (OpenWrite ''out_0000.xyz'') = None"
    by (simp_all add: os_rename_def scenario_world_def)
  from t [where w = scenario_world, THEN conjunct2, THEN conjunct1, rule_format] r2
  have "write_struct scenario_args 3 [''Cu''] [(0, 0, 0)] 0 2 scenario_world
      = (None, scenario_world\<lparr>files := (files scenario_world)
            (''out_0000.xyz'' \<mapsto> struct_text scenario_args 3 [''Cu''] [(0, 0, 0)] 2),
          stdout := stdout scenario_world @ (''Writing new file for d='' @ fmt_8f 2 @ '' ... '')
            @ (''done! (New file: '' @ ''out_0000.xyz'' @ '')'' @ [LF])\<rparr>)"
    unfolding n by simp
  then have 2: "stdout (snd (write_struct scenario_args 3 [''Cu''] [(0, 0, 0)] 0 2 scenario_world))
       = ''Writing new file for d=2.00000000 ... done! (New file: out_0000.xyz)'' @ [LF]"
    by (simp add: f2 scenario_world_def)
  have r3: "os_rename denied_world ''out_0000.xyz'' ''out_0000.xyz.BAK'' = Inl PermissionError"
    by (simp add: os_rename_def denied_world_def)
  from t [where w = denied_world, THEN conjunct2, THEN conjunct2, THEN conjunct1, rule_format,
      of PermissionError] r3
  have 3: "write_loop scenario_args 3 [''Cu''] [(0, 0, 0)] [(0, 2), (1, 3)] denied_world
       = (Some (OSError PermissionError), denied_world)"
    unfolding n by simp
  have r4: "fault full_world (OpenWrite ''out_0000.xyz'') = Some OtherOSError"
    "\<exists>w1. os_rename full_world ''out_0000.xyz'' ''out_0000.xyz.BAK'' = Inr w1"
    by (simp_all add: os_rename_def full_world_def second_world_def)
  from t [where w = full_world, THEN conjunct2, THEN conjunct2, THEN conjunct2, rule_format,
      of OtherOSError] r4
  have 4: "fst (write_loop scenario_args 3 [''Cu''] [(0, 0, 0)] [(0, 2), (1, 3)] full_world)
       = Some (OSError OtherOSError)"
    unfolding n by simp
  from s(1,2) 1 r2(1) 2 r3 3 r4(1) 4 show ?thesis by (intro conjI)
qed

section \<open>One file for each distance (C7)\<close>




section \<open>Equal bounds (C8)\<close>




section \<open>Arguments read from a file: properties\<close>

text \<open>
  C9 (as the code has it): a line is dropped exactly when it is empty, made of
  whitespace only, or has the hash sign as its first character that is not whitespace;
  every other line is yielded once, unchanged.
\<close>

theorem convert_arg_line_to_args_comment:
  "convert_arg_line_to_args line = (if comment_line line then [] else [line])"
proof (cases "dropWhile isspace line")
  case Nil
  then show ?thesis
    by (simp add: convert_arg_line_to_args_def comment_line_def strip_Nil_iff
        del: dropWhile_eq_Nil_conv)
next
  case (Cons c cs)
  then have "strip line \<noteq> []" by (simp add: strip_Nil_iff)
  moreover have "strip line ! 0 = c"
    using hd_strip [OF Cons] calculation by (simp add: hd_conv_nth)
  ultimately show ?thesis
    using Cons by (simp add: convert_arg_line_to_args_def comment_line_def)
qed

text \<open>
  C9 (as stated) fails: the line made of a space, the hash sign and a letter is not
  blank and does not start with the hash sign, and it is dropped all the same.
\<close>

theorem convert_arg_line_to_args_counterexample:
  "\<not> blank_or_hash '' #x'' \<and> convert_arg_line_to_args '' #x'' = []"
  by (simp add: blank_or_hash_def convert_arg_line_to_args_def strip_def isspace_def)

section \<open>Determinism (C10)\<close>

text \<open>
  C10: the files written depend on the command line and on the text of the input file
  only.  Two runs with the same arguments that read the same text and end without an
  exception leave the same text in every output file, whatever else the two directories
  held.
\<close>

theorem main_deterministic:
  assumes "main rnd a w1 = (None, w1')" and "main rnd a w2 = (None, w2')"
    and "open_read w1 (inpxyz a) = open_read w2 (inpxyz a)"
  shows "\<exists>zs texts.
      zvalues rnd (d_min a) (d_max a) (d_step a) = Inr zs \<and> length texts = length zs
    \<and> (\<forall>i < length zs. files w1' (newfile_name (outname a) i) = Some (texts ! i)
                      \<and> files w2' (newfile_name (outname a) i) = Some (texts ! i))"
proof -
  from assms(1) obtain zs content natoms atoms atomcoords shift shft where
    z: "zvalues rnd (d_min a) (d_max a) (d_step a) = Inr zs"
    and c: "open_read w1 (inpxyz a) = Inr content"
    and r: "read_structure rnd (map strip (readlines content)) = Inr (natoms, atoms, atomcoords)"
    and s: "shift_structure rnd atomcoords = Inr (shift, shft)"
    and l1: "write_loop a natoms atoms shft (enumerate zs) w1 = (None, w1')"
    by (rule main_ok)
  from assms(2) z c r s assms(3)
  have l2: "write_loop a natoms atoms shft (enumerate zs) w2 = (None, w2')"
    by (simp add: main_def)
  let ?texts = "map (struct_text a natoms atoms shft) zs"
  have "files w1' (newfile_name (outname a) i) = Some (?texts ! i)
      \<and> files w2' (newfile_name (outname a) i) = Some (?texts ! i)" if "i < length zs" for i
    using write_loop_ok [OF l1 enumerate_distinct] write_loop_ok [OF l2 enumerate_distinct]
      enumerate_set [OF that] that
    by auto
  then have "\<forall>i < length zs. files w1' (newfile_name (outname a) i) = Some (?texts ! i)
                      \<and> files w2' (newfile_name (outname a) i) = Some (?texts ! i)"
    by blast
  moreover have "length ?texts = length zs" by simp
  ultimately show ?thesis using z by blast
qed

theorem main_deterministic_witness:
  "fst (main round_f64 scenario_args scenario_world) = None
   \<and> fst (main round_f64 scenario_args second_world) = None
   \<and> open_read scenario_world ''surf.xyz'' = open_read second_world ''surf.xyz''
   \<and> files scenario_world ''out_0000.xyz'' \<noteq> files second_world ''out_0000.xyz''
   \<and> files (snd (main round_f64 scenario_args scenario_world)) ''out_0000.xyz''
       = files (snd (main round_f64 scenario_args second_world)) ''out_0000.xyz''
   \<and> files (snd (main round_f64 scenario_args scenario_world)) ''out_0001.xyz''
       = files (snd (main round_f64 scenario_args second_world)) ''out_0001.xyz''
   \<and> files (snd (main round_f64 scenario_args scenario_world)) ''out_0002.xyz''
       = files (snd (main round_f64 scenario_args second_world)) ''out_0002.xyz''"
proof -
  let ?w1 = "snd (main round_f64 scenario_args scenario_world)"
  let ?w2 = "snd (main round_f64 scenario_args second_world)"
  have eq: "open_read scenario_world (inpxyz scenario_args) = open_read second_world (inpxyz scenario_args)"
    by (simp add: scenario_open)
  from main_deterministic [OF scenario_run second_run eq]
  obtain zs texts where
    z: "zvalues round_f64 (d_min scenario_args) (d_max scenario_args) (d_step scenario_args) = Inr zs"
    and f: "\<forall>i < length zs. files ?w1 (newfile_name (outname scenario_args) i) = Some (texts ! i)
                      \<and> files ?w2 (newfile_name (outname scenario_args) i) = Some (texts ! i)"
    by blast
  from z have zs: "zs = [2, 3, 4]" by (simp add: scenario_args_sel scenario_zvalues)
  have names: "newfile_name ''out'' 1 = ''out_0001.xyz''" "newfile_name ''out'' 2 = ''out_0002.xyz''"
    "newfile_name ''out'' 0 = ''out_0000.xyz''"
    using name_1_2 [of "''out''"] by (simp_all add: numeral_2_eq_2)
  from f zs have "files ?w1 (newfile_name ''out'' 0) = files ?w2 (newfile_name ''out'' 0)"
    "files ?w1 (newfile_name ''out'' 1) = files ?w2 (newfile_name ''out'' 1)"
    "files ?w1 (newfile_name ''out'' 2) = files ?w2 (newfile_name ''out'' 2)"
    by (simp_all add: scenario_args_sel)
  then have "files ?w1 ''out_0000.xyz'' = files ?w2 ''out_0000.xyz''"
    "files ?w1 ''out_0001.xyz'' = files ?w2 ''out_0001.xyz''"
    "files ?w1 ''out_0002.xyz'' = files ?w2 ''out_0002.xyz''"
    by (simp_all add: names name_1_2)
  moreover have "files scenario_world ''out_0000.xyz'' \<noteq> files second_world ''out_0000.xyz''"
    by (simp add: scenario_world_def second_world_def)
  ultimately show ?thesis
    using scenario_fst second_fst scenario_open by (simp add: scenario_args_sel)
qed

end
